theory Spec2Isabelle
  imports Complex_Main "HOL-Library.Multiset"
begin

section \<open>Machine integers\<close>

text \<open>
  \<open>std::size_t\<close> is an unsigned 64-bit integer: every product and sum of sizes is taken
  modulo \<open>2 ^ 64\<close>. The source leaves overflow unchecked
  (``Note: Not checking for integer overflow here!'').
  Index components are \<open>std::int32_t\<close>; they are modelled by \<open>int\<close>.
\<close>

definition SIZE_MOD :: nat where
  "SIZE_MOD = 2 ^ 64"

definition size_mul :: "nat \<Rightarrow> nat \<Rightarrow> nat" where
  "size_mul a b = (a * b) mod SIZE_MOD"

definition size_add :: "nat \<Rightarrow> nat \<Rightarrow> nat" where
  "size_add a b = (a + b) mod SIZE_MOD"

text \<open>\<open>static_cast<size_t>(i)\<close> for a signed \<open>i\<close>.\<close>

definition to_size :: "int \<Rightarrow> nat" where
  "to_size i = nat (i mod int SIZE_MOD)"

type_synonym index = "int list"

section \<open>Grid geometry\<close>

text \<open>\<open>LinearSize\<close>: \<open>accumulate(begin(a), end(a), size_t{1}, multiplies<size_t>())\<close>.\<close>

definition LinearSize :: "nat list \<Rightarrow> nat" where
  "LinearSize a = foldl size_mul 1 a"

text \<open>
  \<open>Inside\<close>: every component satisfies \<open>0 <= index[i] && static_cast<size_t>(index[i]) < size[i]\<close>.
  The cast of a non-negative \<open>int32_t\<close> is its value.
\<close>

fun Inside :: "index \<Rightarrow> nat list \<Rightarrow> bool" where
  "Inside (x # xs) (s # ss) = (if \<not> (0 \<le> x \<and> nat x < s) then False else Inside xs ss)"
| "Inside _ _ = True"

text \<open>
  \<open>GridStrides\<close>: the loop \<open>for i = 1 .. N-1: stride *= grid_size[i-1]; strides[i-1] = stride\<close>
  reads the sizes of all axes but the last.
\<close>

fun GridStrides_loop :: "nat \<Rightarrow> nat list \<Rightarrow> nat list" where
  "GridStrides_loop stride [] = []"
| "GridStrides_loop stride (s # ss) =
     (let stride' = size_mul stride s in stride' # GridStrides_loop stride' ss)"

definition GridStrides :: "nat list \<Rightarrow> nat list" where
  "GridStrides grid_size = GridStrides_loop 1 (butlast grid_size)"

text \<open>
  \<open>GridLinearIndex\<close>: \<open>k = static_cast<size_t>(index[0])\<close>, then
  \<open>k += index[i] * grid_strides[i-1]\<close> for \<open>i = 1 .. N-1\<close>, all in \<open>size_t\<close>.
\<close>

fun GridLinearIndex_loop :: "nat \<Rightarrow> index \<Rightarrow> nat list \<Rightarrow> nat" where
  "GridLinearIndex_loop k (x # xs) (st # sts) =
     GridLinearIndex_loop (size_add k (size_mul (to_size x) st)) xs sts"
| "GridLinearIndex_loop k _ _ = k"

definition GridLinearIndex :: "index \<Rightarrow> nat list \<Rightarrow> nat" where
  "GridLinearIndex index grid_strides =
     (case index of [] \<Rightarrow> 0 | x # xs \<Rightarrow> GridLinearIndex_loop (to_size x) xs grid_strides)"

text \<open>The mixed-radix value of an index, without wrap-around (used in proofs only).\<close>

fun radix_value :: "index \<Rightarrow> nat list \<Rightarrow> nat" where
  "radix_value (x # xs) (s # ss) = nat x + s * radix_value xs ss"
| "radix_value _ _ = 0"

section \<open>Errors\<close>

text \<open>
  Every \<open>throw runtime_error(...)\<close> of the source is one constructor. \<open>UndefinedBehaviour\<close>
  stands for what C++ leaves undefined and real arithmetic cannot express: a cell access
  outside the buffer (\<open>Grid::Cell\<close> does ``No range checking!''), \<open>top()\<close> of an empty
  queue and the division by a zero leading coefficient.
\<close>

datatype error =
    InvalidGridSize
  | InvalidCellBufferSize
  | InvalidGridSpacing
  | InvalidSpeed
  | EmptyFrozenIndices
  | SizeMismatch
  | IndexOutsideGrid
  | InvalidDistance
  | DuplicateIndex
  | WholeGridFrozen
  | NegativeDiscriminant
  | NegativeDistance
  | IndexOutsideSpeedGrid
  | OpenConnectedComponent
  | EmptyBoundingBox
  | ZeroSizeElement
  | UndefinedBehaviour

section \<open>Grid\<close>

text \<open>
  \<open>Grid<T, N>\<close> is a view of a linear buffer; the model keeps the buffer in the record, so
  that a write through the view is a new record.
\<close>

text \<open>The fields \<open>size_\<close>, \<open>strides_\<close> and \<open>cells_\<close> of the class.\<close>

record 'a Grid =
  Grid_size :: "nat list"
  Grid_strides :: "nat list"
  Grid_cells :: "'a list"

definition Grid_new :: "nat list \<Rightarrow> 'a list \<Rightarrow> error + 'a Grid" where
  "Grid_new grid_size cell_buffer =
     (if list_ex (\<lambda>x. x = 0) grid_size then Inl InvalidGridSize
      else if LinearSize grid_size \<noteq> length cell_buffer then Inl InvalidCellBufferSize
      else Inr \<lparr>Grid_size = grid_size, Grid_strides = GridStrides grid_size, Grid_cells = cell_buffer\<rparr>)"

text \<open>Reading \<open>Cell(index)\<close>.\<close>

definition Cell :: "'a Grid \<Rightarrow> index \<Rightarrow> error + 'a" where
  "Cell g index =
     (let k = GridLinearIndex index (Grid_strides g)
      in if k < length (Grid_cells g) then Inr (Grid_cells g ! k) else Inl UndefinedBehaviour)"

text \<open>Writing \<open>Cell(index) = v\<close>.\<close>

definition Cell_write :: "'a Grid \<Rightarrow> index \<Rightarrow> 'a \<Rightarrow> error + 'a Grid" where
  "Cell_write g index v =
     (let k = GridLinearIndex index (Grid_strides g)
      in if k < length (Grid_cells g) then Inr (g\<lparr>Grid_cells := (Grid_cells g)[k := v]\<rparr>)
         else Inl UndefinedBehaviour)"

text \<open>\<open>neighbor_index = index; neighbor_index[i] += neighbor_offset\<close>.\<close>

definition offset_index :: "index \<Rightarrow> nat \<Rightarrow> int \<Rightarrow> index" where
  "offset_index index i neighbor_offset = index[i := index ! i + neighbor_offset]"

text \<open>\<open>kNeighborOffsets = {-1, 1}\<close>.\<close>

definition kNeighborOffsets :: "int list" where
  "kNeighborOffsets = [- 1, 1]"

text \<open>
  The loop nest \<open>for i < N: for neighbor_offset in kNeighborOffsets\<close> visits the face
  neighbours of an index in this order.
\<close>

definition face_neighbors :: "index \<Rightarrow> index list" where
  "face_neighbors index =
     concat (map (\<lambda>i. map (\<lambda>neighbor_offset. offset_index index i neighbor_offset) kNeighborOffsets)
       [0 ..< length index])"

section \<open>Distances\<close>

text \<open>
  The scalar type \<open>T\<close> is modelled by the reals (exact arithmetic, no rounding, no NaN);
  \<open>numeric_limits<T>::max()\<close> is the largest finite \<open>double\<close>.
\<close>

definition numeric_limits_max :: real where
  "numeric_limits_max = (2 ^ 53 - 1) * 2 ^ 971"

definition frozen :: "real \<Rightarrow> bool" where
  "frozen d = (d < numeric_limits_max)"

definition Squared :: "real \<Rightarrow> real" where
  "Squared x = x * x"

definition InverseSquared :: "real \<Rightarrow> real" where
  "InverseSquared x = 1 / Squared x"

section \<open>Eikonal solvers\<close>

text \<open>
  \<open>SolveEikonalQuadratic\<close> returns the root \<open>(-q1 + sqrt(discriminant)) / (2 q2)\<close> of
  \<open>q0 + q1 x + q2 x^2 = 0\<close>. The source asserts \<open>fabs(q[2]) > 1e-9\<close>; the division by
  \<open>q2 = 0\<close> is reported as \<open>UndefinedBehaviour\<close>.
\<close>

definition SolveEikonalQuadratic :: "real \<times> real \<times> real \<Rightarrow> error + real" where
  "SolveEikonalQuadratic q =
     (case q of (q0, q1, q2) \<Rightarrow>
        if q2 = 0 then Inl UndefinedBehaviour
        else
          let discriminant = q1 * q1 - 4 * q2 * q0
          in if discriminant < 0 then Inl NegativeDiscriminant
             else
               let root = (- q1 + sqrt discriminant) / (2 * q2)
               in if root < 0 then Inl NegativeDistance else Inr root)"

text \<open>The inner loop of \<open>SolveEikonal\<close>: the smallest value among the two face neighbours of axis \<open>i\<close>.\<close>

fun SolveEikonal_neighbors :: "real Grid \<Rightarrow> index \<Rightarrow> nat \<Rightarrow> int list \<Rightarrow> real \<Rightarrow> error + real" where
  "SolveEikonal_neighbors distance_grid index i [] neighbor_min_distance = Inr neighbor_min_distance"
| "SolveEikonal_neighbors distance_grid index i (neighbor_offset # rest) neighbor_min_distance =
     (let neighbor_index = offset_index index i neighbor_offset
      in if Inside neighbor_index (Grid_size distance_grid) then
           (case Cell distance_grid neighbor_index of
              Inl e \<Rightarrow> Inl e
            | Inr neighbor_distance \<Rightarrow>
                if neighbor_distance < neighbor_min_distance
                then SolveEikonal_neighbors distance_grid index i rest neighbor_distance
                else SolveEikonal_neighbors distance_grid index i rest neighbor_min_distance)
         else SolveEikonal_neighbors distance_grid index i rest neighbor_min_distance)"

text \<open>The outer loop of \<open>SolveEikonal\<close> over the axes, accumulating the coefficients \<open>q\<close>.\<close>

fun SolveEikonal_axes ::
  "real Grid \<Rightarrow> index \<Rightarrow> real list \<Rightarrow> nat list \<Rightarrow> real \<times> real \<times> real \<Rightarrow> error + real \<times> real \<times> real" where
  "SolveEikonal_axes distance_grid index grid_spacing [] q = Inr q"
| "SolveEikonal_axes distance_grid index grid_spacing (i # rest) q =
     (case SolveEikonal_neighbors distance_grid index i kNeighborOffsets numeric_limits_max of
        Inl e \<Rightarrow> Inl e
      | Inr neighbor_min_distance \<Rightarrow>
          if neighbor_min_distance < numeric_limits_max then
            (let inv_grid_spacing_squared = InverseSquared (grid_spacing ! i)
             in SolveEikonal_axes distance_grid index grid_spacing rest
                  (fst q + Squared neighbor_min_distance * inv_grid_spacing_squared,
                   fst (snd q) + (- 2) * neighbor_min_distance * inv_grid_spacing_squared,
                   snd (snd q) + inv_grid_spacing_squared))
          else SolveEikonal_axes distance_grid index grid_spacing rest q)"

definition SolveEikonal :: "index \<Rightarrow> real Grid \<Rightarrow> real \<Rightarrow> real list \<Rightarrow> error + real" where
  "SolveEikonal index distance_grid speed grid_spacing =
     (case SolveEikonal_axes distance_grid index grid_spacing [0 ..< length index]
             (- 1 / Squared speed, 0, 0) of
        Inl e \<Rightarrow> Inl e
      | Inr q \<Rightarrow> SolveEikonalQuadratic q)"

text \<open>
  The inner loop of \<open>HighAccuracySolveEikonal\<close>: the pair
  \<open>(neighbor_min_distance, neighbor_min_distance2)\<close>.
\<close>

fun HighAccuracy_neighbors ::
  "real Grid \<Rightarrow> index \<Rightarrow> nat \<Rightarrow> int list \<Rightarrow> real \<times> real \<Rightarrow> error + real \<times> real" where
  "HighAccuracy_neighbors distance_grid index i [] m = Inr m"
| "HighAccuracy_neighbors distance_grid index i (neighbor_offset # rest) m =
     (let neighbor_index = offset_index index i neighbor_offset
      in if Inside neighbor_index (Grid_size distance_grid) then
           (case Cell distance_grid neighbor_index of
              Inl e \<Rightarrow> Inl e
            | Inr neighbor_distance \<Rightarrow>
                if neighbor_distance < fst m then
                  (let neighbor_index2 = offset_index neighbor_index i neighbor_offset
                   in if Inside neighbor_index2 (Grid_size distance_grid) then
                        (case Cell distance_grid neighbor_index2 of
                           Inl e \<Rightarrow> Inl e
                         | Inr neighbor_distance2 \<Rightarrow>
                             if neighbor_distance2 \<le> neighbor_distance
                             then HighAccuracy_neighbors distance_grid index i rest
                                    (neighbor_distance, neighbor_distance2)
                             else HighAccuracy_neighbors distance_grid index i rest
                                    (neighbor_distance, snd m))
                      else HighAccuracy_neighbors distance_grid index i rest
                             (neighbor_distance, snd m))
                else HighAccuracy_neighbors distance_grid index i rest m)
         else HighAccuracy_neighbors distance_grid index i rest m)"

fun HighAccuracy_axes ::
  "real Grid \<Rightarrow> index \<Rightarrow> real list \<Rightarrow> nat list \<Rightarrow> real \<times> real \<times> real \<Rightarrow> error + real \<times> real \<times> real" where
  "HighAccuracy_axes distance_grid index grid_spacing [] q = Inr q"
| "HighAccuracy_axes distance_grid index grid_spacing (i # rest) q =
     (case HighAccuracy_neighbors distance_grid index i kNeighborOffsets
             (numeric_limits_max, numeric_limits_max) of
        Inl e \<Rightarrow> Inl e
      | Inr (neighbor_min_distance, neighbor_min_distance2) \<Rightarrow>
          if neighbor_min_distance < numeric_limits_max then
            (if neighbor_min_distance2 < numeric_limits_max then
               (let alpha = 9 / (4 * Squared (grid_spacing ! i));
                    t = (1 / 3) * (4 * neighbor_min_distance - neighbor_min_distance2)
                in HighAccuracy_axes distance_grid index grid_spacing rest
                     (fst q + Squared t * alpha,
                      fst (snd q) + (- 2) * t * alpha,
                      snd (snd q) + alpha))
             else
               (let inv_grid_spacing_squared = InverseSquared (grid_spacing ! i)
                in HighAccuracy_axes distance_grid index grid_spacing rest
                     (fst q + Squared neighbor_min_distance * inv_grid_spacing_squared,
                      fst (snd q) + (- 2) * neighbor_min_distance * inv_grid_spacing_squared,
                      snd (snd q) + inv_grid_spacing_squared)))
          else HighAccuracy_axes distance_grid index grid_spacing rest q)"

definition HighAccuracySolveEikonal :: "index \<Rightarrow> real Grid \<Rightarrow> real \<Rightarrow> real list \<Rightarrow> error + real" where
  "HighAccuracySolveEikonal index distance_grid speed grid_spacing =
     (case HighAccuracy_axes distance_grid index grid_spacing [0 ..< length index]
             (- 1 / Squared speed, 0, 0) of
        Inl e \<Rightarrow> Inl e
      | Inr q \<Rightarrow> SolveEikonalQuadratic q)"

text \<open>
  The solver classes. Their constructors reject a grid spacing or a speed that is not
  positive; \<open>Solve\<close> dispatches to the two solver functions. The varying-speed solvers read
  the speed at the focal index from a speed grid.
\<close>

datatype EikonalSolverType =
    UniformSpeedEikonalSolver "real list" real
  | HighAccuracyUniformSpeedEikonalSolver "real list" real
  | VaryingSpeedEikonalSolver "real list" "real Grid"
  | HighAccuracyVaryingSpeedEikonalSolver "real list" "real Grid"

definition ThrowIfInvalidGridSpacing :: "real list \<Rightarrow> error option" where
  "ThrowIfInvalidGridSpacing grid_spacing =
     (if list_ex (\<lambda>x. x \<le> 0) grid_spacing then Some InvalidGridSpacing else None)"

definition ThrowIfZeroOrNegativeOrNanSpeed :: "real \<Rightarrow> error option" where
  "ThrowIfZeroOrNegativeOrNanSpeed speed = (if speed \<le> 0 then Some InvalidSpeed else None)"

definition UniformSpeedEikonalSolver_new :: "real list \<Rightarrow> real \<Rightarrow> error + EikonalSolverType" where
  "UniformSpeedEikonalSolver_new grid_spacing speed =
     (case ThrowIfInvalidGridSpacing grid_spacing of
        Some e \<Rightarrow> Inl e
      | None \<Rightarrow>
          (case ThrowIfZeroOrNegativeOrNanSpeed speed of
             Some e \<Rightarrow> Inl e
           | None \<Rightarrow> Inr (UniformSpeedEikonalSolver grid_spacing speed)))"

definition HighAccuracyUniformSpeedEikonalSolver_new ::
  "real list \<Rightarrow> real \<Rightarrow> error + EikonalSolverType" where
  "HighAccuracyUniformSpeedEikonalSolver_new grid_spacing speed =
     (case ThrowIfInvalidGridSpacing grid_spacing of
        Some e \<Rightarrow> Inl e
      | None \<Rightarrow>
          (case ThrowIfZeroOrNegativeOrNanSpeed speed of
             Some e \<Rightarrow> Inl e
           | None \<Rightarrow> Inr (HighAccuracyUniformSpeedEikonalSolver grid_spacing speed)))"

definition Speed :: "real Grid \<Rightarrow> index \<Rightarrow> error + real" where
  "Speed speed_grid index =
     (if \<not> Inside index (Grid_size speed_grid) then Inl IndexOutsideSpeedGrid
      else Cell speed_grid index)"

fun Solve :: "EikonalSolverType \<Rightarrow> index \<Rightarrow> real Grid \<Rightarrow> error + real" where
  "Solve (UniformSpeedEikonalSolver grid_spacing speed) index distance_grid =
     SolveEikonal index distance_grid speed grid_spacing"
| "Solve (HighAccuracyUniformSpeedEikonalSolver grid_spacing speed) index distance_grid =
     HighAccuracySolveEikonal index distance_grid speed grid_spacing"
| "Solve (VaryingSpeedEikonalSolver grid_spacing speed_grid) index distance_grid =
     (case Speed speed_grid index of
        Inl e \<Rightarrow> Inl e
      | Inr speed \<Rightarrow> SolveEikonal index distance_grid speed grid_spacing)"
| "Solve (HighAccuracyVaryingSpeedEikonalSolver grid_spacing speed_grid) index distance_grid =
     (case Speed speed_grid index of
        Inl e \<Rightarrow> Inl e
      | Inr speed \<Rightarrow> HighAccuracySolveEikonal index distance_grid speed grid_spacing)"

section \<open>Narrow band\<close>

text \<open>
  \<open>NarrowBandStore\<close> wraps a \<open>std::priority_queue\<close> over a vector with the comparison
  \<open>lhs.first > rhs.first\<close>: \<open>push\<close> is \<open>push_back\<close> followed by \<open>std::push_heap\<close>, \<open>pop\<close> is
  \<open>std::pop_heap\<close> followed by \<open>pop_back\<close>, \<open>top\<close> is the front of the vector. The two heap
  algorithms are those of the GNU C++ library (\<open>__push_heap\<close>, \<open>__adjust_heap\<close>). The
  comparison looks at the distance only, so which of several entries of equal distance is
  popped first is decided by these algorithms.
\<close>

type_synonym ValueType = "real \<times> index"

definition HeapComparison :: "ValueType \<Rightarrow> ValueType \<Rightarrow> bool" where
  "HeapComparison lhs rhs = (fst lhs > fst rhs)"

function push_heap :: "ValueType list \<Rightarrow> nat \<Rightarrow> ValueType \<Rightarrow> ValueType list" where
  "push_heap c holeIndex v =
     (if holeIndex > 0 \<and> HeapComparison (c ! ((holeIndex - 1) div 2)) v
      then push_heap (c[holeIndex := c ! ((holeIndex - 1) div 2)]) ((holeIndex - 1) div 2) v
      else c[holeIndex := v])"
  by pat_completeness auto
termination
  by (relation "measure (\<lambda>(c, holeIndex, v). holeIndex)") auto

declare push_heap.simps [simp del]

function adjust_heap_loop :: "ValueType list \<Rightarrow> nat \<Rightarrow> nat \<Rightarrow> nat \<Rightarrow> ValueType list \<times> nat \<times> nat" where
  "adjust_heap_loop c holeIndex secondChild len =
     (if secondChild < (len - 1) div 2 then
        (let child = 2 * (secondChild + 1);
             child' = (if HeapComparison (c ! child) (c ! (child - 1)) then child - 1 else child)
         in adjust_heap_loop (c[holeIndex := c ! child']) child' child' len)
      else (c, holeIndex, secondChild))"
  by pat_completeness auto
termination
  by (relation "measure (\<lambda>(c, holeIndex, secondChild, len). len - secondChild)") auto

declare adjust_heap_loop.simps [simp del]

definition adjust_heap :: "ValueType list \<Rightarrow> nat \<Rightarrow> ValueType \<Rightarrow> ValueType list" where
  "adjust_heap c len v =
     (case adjust_heap_loop c 0 0 len of
        (c', holeIndex, secondChild) \<Rightarrow>
          if even len \<and> secondChild = (len - 2) div 2
          then push_heap (c'[holeIndex := c' ! (2 * (secondChild + 1) - 1)])
                 (2 * (secondChild + 1) - 1) v
          else push_heap c' holeIndex v)"

definition Push :: "ValueType list \<Rightarrow> ValueType \<Rightarrow> ValueType list" where
  "Push min_heap v = push_heap (min_heap @ [v]) (length min_heap) v"

definition Pop :: "ValueType list \<Rightarrow> error + ValueType \<times> ValueType list" where
  "Pop min_heap =
     (if min_heap = [] then Inl UndefinedBehaviour
      else Inr (hd min_heap,
             if length min_heap > 1
             then butlast (adjust_heap (min_heap[length min_heap - 1 := hd min_heap])
                             (length min_heap - 1) (last min_heap))
             else butlast min_heap))"

section \<open>Marching\<close>

text \<open>
  \<open>UpdateNeighbors\<close>: for every face neighbour inside the grid that is not frozen, solve and
  push. A failure of \<open>Solve\<close> is an exception; nothing in the source catches it.
  The solver is any object with a \<open>Solve\<close> method (template parameter \<open>E\<close>).
\<close>

fun UpdateNeighbors_loop ::
  "(index \<Rightarrow> real Grid \<Rightarrow> error + real) \<Rightarrow> real Grid \<Rightarrow> index list \<Rightarrow> ValueType list \<Rightarrow>
   error + ValueType list" where
  "UpdateNeighbors_loop eikonal_solver distance_grid [] narrow_band = Inr narrow_band"
| "UpdateNeighbors_loop eikonal_solver distance_grid (neighbor_index # rest) narrow_band =
     (if Inside neighbor_index (Grid_size distance_grid) then
        (case Cell distance_grid neighbor_index of
           Inl e \<Rightarrow> Inl e
         | Inr distance_cell \<Rightarrow>
             if \<not> frozen distance_cell then
               (case eikonal_solver neighbor_index distance_grid of
                  Inl e \<Rightarrow> Inl e
                | Inr distance \<Rightarrow>
                    UpdateNeighbors_loop eikonal_solver distance_grid rest
                      (Push narrow_band (distance, neighbor_index)))
             else UpdateNeighbors_loop eikonal_solver distance_grid rest narrow_band)
      else UpdateNeighbors_loop eikonal_solver distance_grid rest narrow_band)"

definition UpdateNeighbors ::
  "index \<Rightarrow> (index \<Rightarrow> real Grid \<Rightarrow> error + real) \<Rightarrow> real Grid \<Rightarrow> ValueType list \<Rightarrow>
   error + ValueType list" where
  "UpdateNeighbors index eikonal_solver distance_grid narrow_band =
     UpdateNeighbors_loop eikonal_solver distance_grid (face_neighbors index) narrow_band"

text \<open>One iteration of the loop of \<open>MarchNarrowBand\<close>, for a narrow band that is not empty.\<close>

definition March_step ::
  "(index \<Rightarrow> real Grid \<Rightarrow> error + real) \<Rightarrow> ValueType list \<times> real Grid \<Rightarrow>
   error + ValueType list \<times> real Grid" where
  "March_step eikonal_solver s =
     (case Pop (fst s) of
        Inl e \<Rightarrow> Inl e
      | Inr (narrow_band_cell, narrow_band) \<Rightarrow>
          (case Cell (snd s) (snd narrow_band_cell) of
             Inl e \<Rightarrow> Inl e
           | Inr distance_cell \<Rightarrow>
               if \<not> frozen distance_cell then
                 (case Cell_write (snd s) (snd narrow_band_cell) (fst narrow_band_cell) of
                    Inl e \<Rightarrow> Inl e
                  | Inr distance_grid \<Rightarrow>
                      (case UpdateNeighbors (snd narrow_band_cell) eikonal_solver distance_grid
                              narrow_band of
                         Inl e \<Rightarrow> Inl e
                       | Inr narrow_band' \<Rightarrow> Inr (narrow_band', distance_grid)))
               else Inr (narrow_band, snd s)))"

text \<open>
  \<open>MarchNarrowBand\<close>: \<open>while (!narrow_band->empty())\<close>. The first argument bounds the number
  of iterations; \<open>None\<close> means that the loop has not ended within the bound.
\<close>

fun MarchNarrowBand ::
  "nat \<Rightarrow> (index \<Rightarrow> real Grid \<Rightarrow> error + real) \<Rightarrow> ValueType list \<Rightarrow> real Grid \<Rightarrow>
   (error + real Grid) option" where
  "MarchNarrowBand 0 eikonal_solver narrow_band distance_grid =
     (if narrow_band = [] then Some (Inr distance_grid) else None)"
| "MarchNarrowBand (Suc n) eikonal_solver narrow_band distance_grid =
     (if narrow_band = [] then Some (Inr distance_grid)
      else
        (case March_step eikonal_solver (narrow_band, distance_grid) of
           Inl e \<Rightarrow> Some (Inl e)
         | Inr (narrow_band', distance_grid') \<Rightarrow>
             MarchNarrowBand n eikonal_solver narrow_band' distance_grid'))"

section \<open>Boundary condition and the unsigned driver\<close>

text \<open>
  \<open>SetBoundaryCondition\<close> writes through a pointer to the caller's grid and may throw after
  it has written: the model returns the grid as it is when the function ends, together with
  the error thrown, if any.
\<close>

fun SetBoundaryCondition_loop ::
  "(index \<times> real) list \<Rightarrow> real \<Rightarrow> (real \<Rightarrow> bool) \<Rightarrow> real Grid \<Rightarrow> error option \<times> real Grid" where
  "SetBoundaryCondition_loop [] multiplier distance_predicate distance_grid = (None, distance_grid)"
| "SetBoundaryCondition_loop ((index, distance) # rest) multiplier distance_predicate distance_grid =
     (if \<not> Inside index (Grid_size distance_grid) then (Some IndexOutsideGrid, distance_grid)
      else if \<not> distance_predicate distance then (Some InvalidDistance, distance_grid)
      else
        (case Cell distance_grid index of
           Inl e \<Rightarrow> (Some e, distance_grid)
         | Inr distance_cell \<Rightarrow>
             if frozen distance_cell then (Some DuplicateIndex, distance_grid)
             else
               (case Cell_write distance_grid index (multiplier * distance) of
                  Inl e \<Rightarrow> (Some e, distance_grid)
                | Inr distance_grid' \<Rightarrow>
                    SetBoundaryCondition_loop rest multiplier distance_predicate distance_grid')))"

definition SetBoundaryCondition ::
  "index list \<Rightarrow> real list \<Rightarrow> real \<Rightarrow> (real \<Rightarrow> bool) \<Rightarrow> real Grid \<Rightarrow> error option \<times> real Grid" where
  "SetBoundaryCondition indices distances multiplier distance_predicate distance_grid =
     (if indices = [] then (Some EmptyFrozenIndices, distance_grid)
      else if length indices \<noteq> length distances then (Some SizeMismatch, distance_grid)
      else
        (case SetBoundaryCondition_loop (zip indices distances) multiplier distance_predicate
                distance_grid of
           (Some e, distance_grid') \<Rightarrow> (Some e, distance_grid')
         | (None, distance_grid') \<Rightarrow>
             if length indices = LinearSize (Grid_size distance_grid')
             then (Some WholeGridFrozen, distance_grid')
             else (None, distance_grid')))"

text \<open>The labels of the scratch grids (\<open>enum class NarrowBandCell\<close>).\<close>

datatype NarrowBandCell = kBackground | kFrozen | kNarrowBand

text \<open>
  \<open>InitialUnsignedNarrowBand\<close> (the overload with a solver): every face neighbour of a seed
  that is inside the grid and not yet labelled is solved, pushed and labelled. The source
  asserts that such a neighbour is not frozen; without the assertion a seed next to another
  seed is solved and pushed as well.
\<close>

fun InitialUnsignedNarrowBand_neighbors ::
  "(index \<Rightarrow> real Grid \<Rightarrow> error + real) \<Rightarrow> real Grid \<Rightarrow> index list \<Rightarrow>
   NarrowBandCell Grid \<times> ValueType list \<Rightarrow> error + NarrowBandCell Grid \<times> ValueType list" where
  "InitialUnsignedNarrowBand_neighbors eikonal_solver distance_grid [] s = Inr s"
| "InitialUnsignedNarrowBand_neighbors eikonal_solver distance_grid (neighbor_index # rest) s =
     (if Inside neighbor_index (Grid_size (fst s)) then
        (case Cell (fst s) neighbor_index of
           Inl e \<Rightarrow> Inl e
         | Inr neighbor_cell \<Rightarrow>
             if neighbor_cell = kBackground then
               (case eikonal_solver neighbor_index distance_grid of
                  Inl e \<Rightarrow> Inl e
                | Inr distance \<Rightarrow>
                    (case Cell_write (fst s) neighbor_index kNarrowBand of
                       Inl e \<Rightarrow> Inl e
                     | Inr narrow_band_grid \<Rightarrow>
                         InitialUnsignedNarrowBand_neighbors eikonal_solver distance_grid rest
                           (narrow_band_grid, Push (snd s) (distance, neighbor_index))))
             else InitialUnsignedNarrowBand_neighbors eikonal_solver distance_grid rest s)
      else InitialUnsignedNarrowBand_neighbors eikonal_solver distance_grid rest s)"

fun InitialUnsignedNarrowBand_loop ::
  "(index \<Rightarrow> real Grid \<Rightarrow> error + real) \<Rightarrow> real Grid \<Rightarrow> index list \<Rightarrow>
   NarrowBandCell Grid \<times> ValueType list \<Rightarrow> error + NarrowBandCell Grid \<times> ValueType list" where
  "InitialUnsignedNarrowBand_loop eikonal_solver distance_grid [] s = Inr s"
| "InitialUnsignedNarrowBand_loop eikonal_solver distance_grid (frozen_index # rest) s =
     (case InitialUnsignedNarrowBand_neighbors eikonal_solver distance_grid
             (face_neighbors frozen_index) s of
        Inl e \<Rightarrow> Inl e
      | Inr s' \<Rightarrow> InitialUnsignedNarrowBand_loop eikonal_solver distance_grid rest s')"

definition InitialUnsignedNarrowBand ::
  "index list \<Rightarrow> real Grid \<Rightarrow> (index \<Rightarrow> real Grid \<Rightarrow> error + real) \<Rightarrow> error + ValueType list" where
  "InitialUnsignedNarrowBand frozen_indices distance_grid eikonal_solver =
     (case Grid_new (Grid_size distance_grid)
             (replicate (LinearSize (Grid_size distance_grid)) kBackground) of
        Inl e \<Rightarrow> Inl e
      | Inr narrow_band_grid \<Rightarrow>
          (case InitialUnsignedNarrowBand_loop eikonal_solver distance_grid frozen_indices
                  (narrow_band_grid, []) of
             Inl e \<Rightarrow> Inl e
           | Inr s \<Rightarrow> Inr (snd s)))"

text \<open>The predicate of the unsigned driver: \<open>!isnan(d) && frozen(d) && d >= T{0}\<close>.\<close>

definition unsigned_distance_predicate :: "real \<Rightarrow> bool" where
  "unsigned_distance_predicate d = (frozen d \<and> d \<ge> 0)"

text \<open>
  \<open>UnsignedDistance\<close>. The first argument bounds the iterations of the marching loop; the
  result is the distance buffer.
\<close>

definition UnsignedDistance ::
  "nat \<Rightarrow> nat list \<Rightarrow> index list \<Rightarrow> real list \<Rightarrow> (index \<Rightarrow> real Grid \<Rightarrow> error + real) \<Rightarrow>
   (error + real list) option" where
  "UnsignedDistance n grid_size frozen_indices frozen_distances eikonal_solver =
     (case Grid_new grid_size (replicate (LinearSize grid_size) numeric_limits_max) of
        Inl e \<Rightarrow> Some (Inl e)
      | Inr distance_grid \<Rightarrow>
          (case SetBoundaryCondition frozen_indices frozen_distances 1
                  unsigned_distance_predicate distance_grid of
             (Some e, distance_grid') \<Rightarrow> Some (Inl e)
           | (None, distance_grid') \<Rightarrow>
               (case InitialUnsignedNarrowBand frozen_indices distance_grid' eikonal_solver of
                  Inl e \<Rightarrow> Some (Inl e)
                | Inr narrow_band \<Rightarrow>
                    (case MarchNarrowBand n eikonal_solver narrow_band distance_grid' of
                       None \<Rightarrow> None
                     | Some (Inl e) \<Rightarrow> Some (Inl e)
                     | Some (Inr distance_grid'') \<Rightarrow> Some (Inr (Grid_cells distance_grid''))))))"

section \<open>Notions used in the statements\<close>


text \<open>
  The grid in which \<open>multiplier * distance\<close> has been written at the cell of every seed of a
  list, in the order of the list.
\<close>

fun write_seeds :: "(index \<times> real) list \<Rightarrow> real \<Rightarrow> real Grid \<Rightarrow> real Grid" where
  "write_seeds [] multiplier g = g"
| "write_seeds ((index, distance) # rest) multiplier g =
     write_seeds rest multiplier
       (g\<lparr>Grid_cells :=
            (Grid_cells g)[GridLinearIndex index (Grid_strides g) := multiplier * distance]\<rparr>)"




text \<open>
  A list reordered by a list of positions: element \<open>j\<close> of the result is element \<open>ps ! j\<close> of
  the list. When \<open>ps\<close> holds every position once, the result is a permutation of the list.
\<close>

definition reorder :: "nat list \<Rightarrow> 'a list \<Rightarrow> 'a list" where
  "reorder ps xs = map (\<lambda>k. xs ! k) ps"

section \<open>Linear indexing is safe when the extent does not overflow\<close>

lemma to_size_nat: "0 \<le> x \<Longrightarrow> nat x < SIZE_MOD \<Longrightarrow> to_size x = nat x"
  by (simp add: to_size_def)


lemma size_mul_small: "a * b < SIZE_MOD \<Longrightarrow> size_mul a b = a * b"
  by (simp add: size_mul_def)

lemma size_add_small: "a + b < SIZE_MOD \<Longrightarrow> size_add a b = a + b"
  by (simp add: size_add_def)

lemma prod_list_pos: "\<forall>s\<in>set ss. 0 < s \<Longrightarrow> 0 < prod_list ss" for ss :: "nat list"
  by (induction ss) auto

lemma Inside_prod_pos: "length xs = length ts \<Longrightarrow> Inside xs ts \<Longrightarrow> 0 < prod_list ts"
proof (induction xs ts rule: Inside.induct)
  case (1 x xs s ss)
  then show ?case by (auto split: if_splits)
qed auto

lemma LinearSize_foldl:
  "a * prod_list ss < SIZE_MOD \<Longrightarrow> \<forall>s\<in>set ss. 0 < s \<Longrightarrow> foldl size_mul a ss = a * prod_list ss"
proof (induction ss arbitrary: a)
  case Nil
  then show ?case by simp
next
  case (Cons s ss)
  have pos: "0 < prod_list ss" using Cons.prems(2) by (simp add: prod_list_pos)
  have "a * s \<le> a * s * prod_list ss" using pos by simp
  also have "\<dots> < SIZE_MOD" using Cons.prems(1) by (simp add: mult.assoc)
  finally have small: "a * s < SIZE_MOD" .
  have "foldl size_mul (a * s) ss = a * s * prod_list ss"
    using Cons.IH [of "a * s"] Cons.prems by (simp add: mult.assoc)
  then show ?case by (simp add: size_mul_small [OF small] mult.assoc)
qed

lemma LinearSize_prod:
  "prod_list ss < SIZE_MOD \<Longrightarrow> \<forall>s\<in>set ss. 0 < s \<Longrightarrow> LinearSize ss = prod_list ss"
  using LinearSize_foldl [of 1 ss] by (simp add: LinearSize_def)

lemma loop_value:
  "length xs = length ts \<Longrightarrow> Inside xs ts \<Longrightarrow> k < p * s \<Longrightarrow> p * s * prod_list ts < SIZE_MOD \<Longrightarrow>
   GridLinearIndex_loop k xs (GridStrides_loop p (s # ts)) = k + p * s * radix_value xs ts \<and>
   k + p * s * radix_value xs ts < p * s * prod_list ts"
proof (induction xs arbitrary: ts k p s)
  case Nil
  then show ?case by simp
next
  case (Cons x xs)
  then obtain t ts' where ts: "ts = t # ts'" by (cases ts) auto
  from Cons.prems ts have len: "length xs = length ts'" and x0: "0 \<le> x" and xt: "nat x < t"
    and ins: "Inside xs ts'" by (auto split: if_splits)
  define P where "P = p * s"
  define n where "n = nat x"
  have Ppos: "0 < P" using Cons.prems(3) unfolding P_def by (cases "p * s") auto
  have pos': "0 < prod_list ts'" using len ins by (rule Inside_prod_pos)
  have bound: "P * t * prod_list ts' < SIZE_MOD" using Cons.prems(4) ts by (simp add: P_def mult.assoc)
  have "P * t * 1 \<le> P * t * prod_list ts'" by (rule mult_le_mono2) (use pos' in simp)
  then have "P * t \<le> P * t * prod_list ts'" by (simp only: mult_1_right)
  then have Pt: "P * t < SIZE_MOD" using bound by (rule le_less_trans)
  have "Suc n \<le> t" using xt by (simp add: n_def)
  then have "P * Suc n \<le> P * t" by (rule mult_le_mono2)
  then have step: "k + n * P < P * t" using Cons.prems(3) by (simp add: P_def algebra_simps)
  have "P * 1 \<le> P * t" by (rule mult_le_mono2) (use \<open>Suc n \<le> t\<close> in simp)
  then have "P \<le> P * t" by (simp only: mult_1_right)
  then have Psmall: "P < SIZE_MOD" using Pt by (rule le_less_trans)
  have nP: "n * P < SIZE_MOD" using step Pt by linarith
  have "n * 1 \<le> n * P" by (rule mult_le_mono2) (use Ppos in simp)
  then have "n \<le> n * P" by (simp only: mult_1_right)
  then have nsmall: "n < SIZE_MOD" using nP by (rule le_less_trans)
  have ts_x: "to_size x = n" using x0 nsmall by (simp add: to_size_nat n_def)
  have strides: "GridStrides_loop p (s # ts) = P # GridStrides_loop P (t # ts')"
    using Psmall by (simp add: ts P_def size_mul_small Let_def)
  have k': "size_add k (size_mul (to_size x) P) = k + n * P"
  proof -
    have "k + n * P < SIZE_MOD" using step Pt by linarith
    then show ?thesis by (simp add: ts_x size_mul_small [OF nP] size_add_small)
  qed
  have IH: "GridLinearIndex_loop (k + n * P) xs (GridStrides_loop P (t # ts')) =
      (k + n * P) + P * t * radix_value xs ts' \<and>
      (k + n * P) + P * t * radix_value xs ts' < P * t * prod_list ts'"
    using Cons.IH [OF len ins step bound] .
  have unfold: "GridLinearIndex_loop k (x # xs) (GridStrides_loop p (s # ts)) =
      GridLinearIndex_loop (k + n * P) xs (GridStrides_loop P (t # ts'))"
    by (simp only: strides GridLinearIndex_loop.simps k')
  have rv: "radix_value (x # xs) ts = n + t * radix_value xs ts'"
    by (simp add: ts n_def)
  have pl: "prod_list ts = t * prod_list ts'" by (simp add: ts)
  show ?case
    unfolding unfold rv pl using IH by (simp add: algebra_simps P_def)
qed


lemma GridStrides_loop_length: "length (GridStrides_loop p l) = length l"
  by (induction l arbitrary: p) (simp_all add: Let_def)

lemma GridStrides_loop_append:
  "GridStrides_loop p (l @ m) = GridStrides_loop p l @ GridStrides_loop (foldl size_mul p l) m"
  by (induction l arbitrary: p) (simp_all add: Let_def)

lemma GridLinearIndex_loop_extra:
  "length xs \<le> length sts \<Longrightarrow> GridLinearIndex_loop k xs (sts @ ex) = GridLinearIndex_loop k xs sts"
proof (induction xs arbitrary: k sts)
  case Nil
  then show ?case by (cases sts; cases ex) simp_all
next
  case (Cons x xs)
  then obtain st sts' where "sts = st # sts'" by (cases sts) auto
  with Cons show ?case by simp
qed

lemma GridLinearIndex_loop_butlast:
  assumes "length xs = length ts"
  shows "GridLinearIndex_loop k xs (GridStrides_loop p (butlast (s # ts))) =
         GridLinearIndex_loop k xs (GridStrides_loop p (s # ts))"
proof -
  have "s # ts = butlast (s # ts) @ [last (s # ts)]" by simp
  then have "GridStrides_loop p (s # ts) =
      GridStrides_loop p (butlast (s # ts)) @
      GridStrides_loop (foldl size_mul p (butlast (s # ts))) [last (s # ts)]"
    by (metis GridStrides_loop_append)
  moreover have "length xs \<le> length (GridStrides_loop p (butlast (s # ts)))"
    using assms by (simp add: GridStrides_loop_length)
  ultimately show ?thesis by (simp only: GridLinearIndex_loop_extra)
qed

lemma GridLinearIndex_radix:
  assumes len: "length index = length grid_size" and ins: "Inside index grid_size"
    and ne: "grid_size \<noteq> []" and small: "prod_list grid_size < SIZE_MOD"
  shows "GridLinearIndex index (GridStrides grid_size) = radix_value index grid_size \<and>
         radix_value index grid_size < prod_list grid_size"
proof -
  from ne len obtain x xs s ts where index: "index = x # xs" and sz: "grid_size = s # ts"
    by (cases index; cases grid_size) auto
  from len ins have len': "length xs = length ts" and x0: "0 \<le> x" and xs: "nat x < s"
    and ins': "Inside xs ts" by (auto simp: index sz split: if_splits)
  have bound0: "s * prod_list ts < SIZE_MOD" using small by (simp add: sz)
  then have bound: "1 * s * prod_list ts < SIZE_MOD" by simp
  have pos: "0 < prod_list ts" using len' ins' by (rule Inside_prod_pos)
  have "s * 1 \<le> s * prod_list ts" by (rule mult_le_mono2) (use pos in simp)
  then have "s \<le> s * prod_list ts" by (simp only: mult_1_right)
  then have "s < SIZE_MOD" using bound0 by (rule le_less_trans)
  then have cast: "to_size x = nat x" using x0 xs by (simp add: to_size_nat)
  have k: "nat x < 1 * s" using xs by simp
  have "GridLinearIndex index (GridStrides grid_size) =
        GridLinearIndex_loop (nat x) xs (GridStrides_loop 1 (s # ts))"
    by (simp only: GridLinearIndex_def GridStrides_def index sz list.case cast
        GridLinearIndex_loop_butlast [OF len'])
  also have "\<dots> = nat x + 1 * s * radix_value xs ts"
    using loop_value [OF len' ins' k bound] by simp
  finally have "GridLinearIndex index (GridStrides grid_size) = radix_value index grid_size"
    by (simp add: index sz)
  moreover have "radix_value index grid_size < prod_list grid_size"
    using loop_value [OF len' ins' k bound] by (simp add: index sz)
  ultimately show ?thesis by simp
qed

lemma radix_value_inj:
  "length xs = length ss \<Longrightarrow> length ys = length ss \<Longrightarrow> Inside xs ss \<Longrightarrow> Inside ys ss \<Longrightarrow>
   radix_value xs ss = radix_value ys ss \<Longrightarrow> xs = ys"
proof (induction xs ss arbitrary: ys rule: Inside.induct)
  case (1 x xs s ss)
  then obtain y ys' where ys: "ys = y # ys'" by (cases ys) auto
  from "1.prems" ys have x: "0 \<le> x" "nat x < s" and y: "0 \<le> y" "nat y < s"
    and ix: "Inside xs ss" and iy: "Inside ys' ss"
    and eq: "nat x + s * radix_value xs ss = nat y + s * radix_value ys' ss"
    by (auto split: if_splits)
  have "(nat x + s * radix_value xs ss) mod s = nat x" using x by simp
  moreover have "(nat y + s * radix_value ys' ss) mod s = nat y" using y by simp
  ultimately have xy: "nat x = nat y" using eq by simp
  then have "x = y" using x y by simp
  moreover have "radix_value xs ss = radix_value ys' ss" using eq xy x by simp
  then have "xs = ys'" using "1.IH" "1.prems" ys x ix iy by simp
  ultimately show ?case by (simp add: ys)
qed auto

text \<open>
  Claim C10 (amended). For a grid size with all components positive whose product fits in
  \<open>size_t\<close>, \<open>GridLinearIndex\<close> with the strides of \<open>GridStrides\<close> maps every index
  inside the grid to an offset below \<open>LinearSize\<close>, and distinct inside indices to distinct
  offsets.
\<close>

theorem GridLinearIndex_safe:
  assumes "grid_size \<noteq> []" and "\<forall>s\<in>set grid_size. 0 < s"
    and "prod_list grid_size < SIZE_MOD"
    and "length index = length grid_size" and "Inside index grid_size"
  shows "GridLinearIndex index (GridStrides grid_size) < LinearSize grid_size \<and>
    (\<forall>index'. length index' = length grid_size \<and> Inside index' grid_size \<and> index' \<noteq> index \<longrightarrow>
       GridLinearIndex index' (GridStrides grid_size) \<noteq> GridLinearIndex index (GridStrides grid_size))"
proof -
  have ls: "LinearSize grid_size = prod_list grid_size"
    using assms(3,2) by (rule LinearSize_prod)
  have v: "GridLinearIndex index (GridStrides grid_size) = radix_value index grid_size"
    and b: "radix_value index grid_size < prod_list grid_size"
    using GridLinearIndex_radix [OF assms(4,5,1,3)] by simp_all
  have "GridLinearIndex index' (GridStrides grid_size) \<noteq> GridLinearIndex index (GridStrides grid_size)"
    if h: "length index' = length grid_size" "Inside index' grid_size" "index' \<noteq> index" for index'
  proof
    assume e: "GridLinearIndex index' (GridStrides grid_size) = GridLinearIndex index (GridStrides grid_size)"
    have "GridLinearIndex index' (GridStrides grid_size) = radix_value index' grid_size"
      using GridLinearIndex_radix [OF h(1,2) assms(1,3)] by simp
    then have "radix_value index' grid_size = radix_value index grid_size" using e v by simp
    then have "index' = index"
      using radix_value_inj [OF h(1) assms(4) h(2) assms(5)] by simp
    then show False using h(3) by simp
  qed
  then show ?thesis using ls v b by simp
qed

theorem GridLinearIndex_safe_witness:
  "[3, 2] \<noteq> ([] :: nat list) \<and> (0 :: nat) < 3 \<and> (0 :: nat) < 2 \<and> prod_list [3, 2 :: nat] < SIZE_MOD \<and>
   Inside [2, 1] [3, 2] \<and> Inside [0, 1] [3, 2] \<and>
   GridLinearIndex [2, 1] (GridStrides [3, 2]) < LinearSize [3, 2] \<and>
   GridLinearIndex [0, 1] (GridStrides [3, 2]) \<noteq> GridLinearIndex [2, 1] (GridStrides [3, 2])"
  using GridLinearIndex_safe [of "[3, 2]" "[2, 1]"]
  by (simp add: SIZE_MOD_def)

text \<open>
  Claim C10 as stated fails when the product of the sizes wraps around: for the size
  \<open>[2 ^ 63, 2]\<close> the linear extent is \<open>0\<close> and the offset of the origin is not below it.
\<close>

theorem GridLinearIndex_overflow_counterexample:
  "0 < (9223372036854775808 :: nat) \<and> 0 < (2 :: nat) \<and> Inside [0, 0] [9223372036854775808, 2] \<and>
   \<not> GridLinearIndex [0, 0] (GridStrides [9223372036854775808, 2]) < LinearSize [9223372036854775808, 2]"
  by (simp add: GridLinearIndex_def GridStrides_def LinearSize_def size_mul_def size_add_def
      to_size_def SIZE_MOD_def)



section \<open>The narrow band as a container\<close>


lemma push_heap_set: "set (push_heap c h v) \<subseteq> insert v (set c)"
proof (induction c h v rule: push_heap.induct)
  case (1 c holeIndex v)
  show ?case
  proof (cases "holeIndex > 0 \<and> HeapComparison (c ! ((holeIndex - 1) div 2)) v")
    case True
    have "set (c[holeIndex := c ! ((holeIndex - 1) div 2)]) \<subseteq> insert (c ! ((holeIndex - 1) div 2)) (set c)"
      by (rule set_update_subset_insert)
    moreover have "c ! ((holeIndex - 1) div 2) \<in> set c" if "holeIndex < length c"
      using that True by (intro nth_mem) auto
    ultimately have "set (c[holeIndex := c ! ((holeIndex - 1) div 2)]) \<subseteq> set c"
      by (cases "holeIndex < length c") (auto simp: list_update_beyond)
    then show ?thesis
      using 1 [OF True] True by (subst push_heap.simps) auto
  next
    case False
    then show ?thesis
      using set_update_subset_insert [of c holeIndex v] by (subst push_heap.simps) auto
  qed
qed






lemma Push_set: "set (Push b v) \<subseteq> insert v (set b)"
  using push_heap_set [of "b @ [v]" "length b" v] by (auto simp: Push_def)




section \<open>Frozen cells\<close>

lemma Cell_Inr: "Cell g x = Inr v \<longleftrightarrow>
    GridLinearIndex x (Grid_strides g) < length (Grid_cells g) \<and>
    v = Grid_cells g ! GridLinearIndex x (Grid_strides g)"
  by (auto simp: Cell_def Let_def)

lemma Cell_write_Inr: "Cell_write g x v = Inr g' \<longleftrightarrow>
    GridLinearIndex x (Grid_strides g) < length (Grid_cells g) \<and>
    g' = g\<lparr>Grid_cells := (Grid_cells g)[GridLinearIndex x (Grid_strides g) := v]\<rparr>"
  by (auto simp: Cell_write_def Let_def)



lemma face_neighbors_index_length: "y \<in> set (face_neighbors x) \<Longrightarrow> length y = length x"
  by (auto simp: face_neighbors_def offset_index_def kNeighborOffsets_def)

text \<open>What one iteration does to the state.\<close>

lemma March_step_cases:
  assumes "March_step solver (b, g) = Inr (b', g')"
  obtains (stale) d x where "Pop b = Inr ((d, x), b')" "g' = g"
      "frozen (Grid_cells g ! GridLinearIndex x (Grid_strides g))"
      "GridLinearIndex x (Grid_strides g) < length (Grid_cells g)"
  | (freeze) d x rest where "Pop b = Inr ((d, x), rest)"
      "GridLinearIndex x (Grid_strides g) < length (Grid_cells g)"
      "\<not> frozen (Grid_cells g ! GridLinearIndex x (Grid_strides g))"
      "g' = g\<lparr>Grid_cells := (Grid_cells g)[GridLinearIndex x (Grid_strides g) := d]\<rparr>"
      "UpdateNeighbors x solver g' rest = Inr b'"
proof -
  from assms obtain d x rest where pop: "Pop b = Inr ((d, x), rest)"
    by (cases "Pop b") (auto simp: March_step_def)
  from assms pop obtain dc where dc: "Cell g x = Inr dc"
    by (cases "Cell g x") (auto simp: March_step_def)
  then have k: "GridLinearIndex x (Grid_strides g) < length (Grid_cells g)"
    and dcv: "dc = Grid_cells g ! GridLinearIndex x (Grid_strides g)"
    by (simp_all add: Cell_Inr)
  show thesis
  proof (cases "frozen dc")
    case True
    then have "b' = rest" "g' = g" using assms pop dc by (auto simp: March_step_def)
    then show thesis using stale pop True k dcv by simp
  next
    case False
    then obtain g1 where w: "Cell_write g x d = Inr g1"
      using assms pop dc by (cases "Cell_write g x d") (auto simp: March_step_def)
    then have u: "UpdateNeighbors x solver g1 rest = Inr b'" and "g' = g1"
      using assms pop dc False
      by (cases "UpdateNeighbors x solver g1 rest"; auto simp: March_step_def)+
    then show thesis using freeze [OF pop k] False dcv w by (simp add: Cell_write_Inr)
  qed
qed

lemma March_step_frozen_kept:
  assumes "March_step solver (b, g) = Inr (b', g')"
    and "k < length (Grid_cells g)" and "frozen (Grid_cells g ! k)"
  shows "Grid_cells g' ! k = Grid_cells g ! k"
  using assms(1)
proof (cases rule: March_step_cases)
  case (stale d x)
  then show ?thesis by simp
next
  case (freeze d x rest)
  then have "GridLinearIndex x (Grid_strides g) \<noteq> k" using assms(3) by auto
  then show ?thesis using freeze by simp
qed

lemma March_step_shape:
  assumes "March_step solver (b, g) = Inr (b', g')"
  shows "Grid_strides g' = Grid_strides g \<and> Grid_size g' = Grid_size g \<and>
         length (Grid_cells g') = length (Grid_cells g)"
  using assms by (cases rule: March_step_cases) simp_all

lemma MarchNarrowBand_frozen_kept:
  "MarchNarrowBand n solver b g = Some (Inr g') \<Longrightarrow> k < length (Grid_cells g) \<Longrightarrow>
   frozen (Grid_cells g ! k) \<Longrightarrow>
   Grid_cells g' ! k = Grid_cells g ! k \<and> Grid_strides g' = Grid_strides g \<and>
   length (Grid_cells g') = length (Grid_cells g)"
proof (induction n arbitrary: b g)
  case 0
  then show ?case by (auto split: if_splits)
next
  case (Suc n)
  show ?case
  proof (cases "b = []")
    case True
    then show ?thesis using Suc.prems by simp
  next
    case False
    then obtain b1 g1 where st: "March_step solver (b, g) = Inr (b1, g1)"
      and rest: "MarchNarrowBand n solver b1 g1 = Some (Inr g')"
      using Suc.prems(1) by (cases "March_step solver (b, g)") auto
    have keep: "Grid_cells g1 ! k = Grid_cells g ! k"
      using March_step_frozen_kept [OF st Suc.prems(2,3)] .
    have shape: "Grid_strides g1 = Grid_strides g" "length (Grid_cells g1) = length (Grid_cells g)"
      using March_step_shape [OF st] by simp_all
    have "Grid_cells g' ! k = Grid_cells g1 ! k \<and> Grid_strides g' = Grid_strides g1 \<and>
        length (Grid_cells g') = length (Grid_cells g1)"
      using Suc.IH [OF rest] Suc.prems(2,3) keep shape by simp
    then show ?thesis using keep shape by simp
  qed
qed

lemma MarchNarrowBand_shape:
  "MarchNarrowBand n solver b g = Some (Inr g') \<Longrightarrow>
   Grid_strides g' = Grid_strides g \<and> length (Grid_cells g') = length (Grid_cells g)"
proof (induction n arbitrary: b g)
  case 0
  then show ?case by (auto split: if_splits)
next
  case (Suc n)
  show ?case
  proof (cases "b = []")
    case True
    then show ?thesis using Suc.prems by simp
  next
    case False
    then obtain b1 g1 where st: "March_step solver (b, g) = Inr (b1, g1)"
      and rest: "MarchNarrowBand n solver b1 g1 = Some (Inr g')"
      using Suc.prems(1) by (cases "March_step solver (b, g)") auto
    show ?thesis using Suc.IH [OF rest] March_step_shape [OF st] by simp
  qed
qed

text \<open>
  Claim C5. The marching loop never overwrites a frozen cell: a cell that holds a value
  below the sentinel keeps it through one iteration and through the whole march, and an
  iteration that pops an entry whose cell is already frozen only removes the entry.
\<close>

theorem frozen_cells_are_never_overwritten:
  "(March_step solver (band, g) = Inr (band', g') \<and> Cell g x = Inr v \<and> frozen v \<longrightarrow>
      Cell g' x = Inr v) \<and>
   (MarchNarrowBand n solver band g = Some (Inr g'') \<and> Cell g x = Inr v \<and> frozen v \<longrightarrow>
      Cell g'' x = Inr v) \<and>
   (Pop band = Inr ((d, y), rest) \<and> Cell g y = Inr w \<and> frozen w \<longrightarrow>
      March_step solver (band, g) = Inr (rest, g))"
proof (intro conjI impI; elim conjE)
  assume st: "March_step solver (band, g) = Inr (band', g')" and c: "Cell g x = Inr v" and f: "frozen v"
  from c have k: "GridLinearIndex x (Grid_strides g) < length (Grid_cells g)"
    and v: "v = Grid_cells g ! GridLinearIndex x (Grid_strides g)" by (simp_all add: Cell_Inr)
  show "Cell g' x = Inr v"
    using March_step_frozen_kept [OF st k] March_step_shape [OF st] f v k by (simp add: Cell_Inr)
next
  assume m: "MarchNarrowBand n solver band g = Some (Inr g'')" and c: "Cell g x = Inr v" and f: "frozen v"
  from c have k: "GridLinearIndex x (Grid_strides g) < length (Grid_cells g)"
    and v: "v = Grid_cells g ! GridLinearIndex x (Grid_strides g)" by (simp_all add: Cell_Inr)
  show "Cell g'' x = Inr v"
    using MarchNarrowBand_frozen_kept [OF m k] f v k by (simp add: Cell_Inr)
next
  assume "Pop band = Inr ((d, y), rest)" "Cell g y = Inr w" "frozen w"
  then show "March_step solver (band, g) = Inr (rest, g)"
    by (simp add: March_step_def)
qed



section \<open>Counting cells and entries\<close>


lemma UpdateNeighbors_loop_set:
  "UpdateNeighbors_loop solver g ns b = Inr b' \<Longrightarrow> e \<in> set b' \<Longrightarrow>
   e \<in> set b \<or> (snd e \<in> set ns \<and> solver (snd e) g = Inr (fst e))"
proof (induction ns arbitrary: b)
  case Nil
  then show ?case by simp
next
  case (Cons n ns)
  show ?case
  proof (cases "Inside n (Grid_size g)")
    case False
    then show ?thesis using Cons.prems Cons.IH [of b] by auto
  next
    case True
    then obtain dc where dc: "Cell g n = Inr dc"
      using Cons.prems by (cases "Cell g n") auto
    show ?thesis
    proof (cases "frozen dc")
      case True
      then show ?thesis using Cons.prems Cons.IH [of b] \<open>Inside n (Grid_size g)\<close> dc by auto
    next
      case False
      then obtain d where d: "solver n g = Inr d"
        using Cons.prems \<open>Inside n (Grid_size g)\<close> dc by (cases "solver n g") auto
      then have "UpdateNeighbors_loop solver g ns (Push b (d, n)) = Inr b'"
        using Cons.prems \<open>Inside n (Grid_size g)\<close> dc False by simp
      from Cons.IH [OF this Cons.prems(2)] show ?thesis
        using Push_set [of b "(d, n)"] d by auto
    qed
  qed
qed

section \<open>The first-order quadratic\<close>


lemma Grid_new_Inr:
  "Grid_new grid_size cells = Inr g \<Longrightarrow>
   Grid_size g = grid_size \<and> Grid_strides g = GridStrides grid_size \<and> Grid_cells g = cells \<and>
   (\<forall>s\<in>set grid_size. 0 < s) \<and> LinearSize grid_size = length cells"
proof -
  assume n: "Grid_new grid_size cells = Inr g"
  then have "0 \<notin> set grid_size" by (auto simp: Grid_new_def list_ex_iff split: if_splits)
  then have "\<forall>s\<in>set grid_size. 0 < s" by (metis gr0I)
  then show ?thesis using n by (auto simp: Grid_new_def split: if_splits)
qed









section \<open>Evaluation on concrete inputs\<close>

lemma to_size_small: "0 \<le> x \<Longrightarrow> x < 18446744073709551616 \<Longrightarrow> to_size x = nat x"
  by (simp add: to_size_def SIZE_MOD_def)

lemma to_size_minus_one: "to_size (- 1) = 18446744073709551615"
  by (simp add: to_size_def SIZE_MOD_def)

lemma size_mul_numeral: "a * b < 18446744073709551616 \<Longrightarrow> size_mul a b = a * b"
  by (simp add: size_mul_def SIZE_MOD_def)

lemma size_add_numeral: "a + b < 18446744073709551616 \<Longrightarrow> size_add a b = a + b"
  by (simp add: size_add_def SIZE_MOD_def)

lemma frozen_small: "x \<le> 1000000 \<Longrightarrow> frozen x"
  by (simp add: frozen_def numeric_limits_max_def)

lemma small_less_max: "x \<le> 1000000 \<Longrightarrow> x < numeric_limits_max"
  by (simp add: numeric_limits_max_def)

lemma small_le_max: "x \<le> 1000000 \<Longrightarrow> x \<le> numeric_limits_max"
  by (simp add: numeric_limits_max_def)

lemma max_not_less_small: "x \<le> 1000000 \<Longrightarrow> \<not> numeric_limits_max < x"
  by (simp add: numeric_limits_max_def)

lemma max_not_le_small: "x \<le> 1000000 \<Longrightarrow> \<not> numeric_limits_max \<le> x"
  by (simp add: numeric_limits_max_def)

lemma max_not_frozen: "\<not> frozen numeric_limits_max"
  by (simp add: frozen_def)

lemma MarchNarrowBand_numeral:
  "MarchNarrowBand (numeral k) s b g =
     (if b = [] then Some (Inr g)
      else (case March_step s (b, g) of
              Inl e \<Rightarrow> Some (Inl e)
            | Inr (b', g') \<Rightarrow> MarchNarrowBand (pred_numeral k) s b' g'))"
  by (simp add: numeral_eq_Suc)

lemma MarchNarrowBand_one:
  "MarchNarrowBand 1 s b g =
     (if b = [] then Some (Inr g)
      else (case March_step s (b, g) of
              Inl e \<Rightarrow> Some (Inl e)
            | Inr (b', g') \<Rightarrow> MarchNarrowBand 0 s b' g'))"
  unfolding One_nat_def by simp

lemma replicate_numeral: "replicate (numeral k) x = x # replicate (pred_numeral k) x"
  by (simp add: numeral_eq_Suc)

lemma sqrt_nine: "sqrt 9 = 3"
  by (rule real_sqrt_unique) simp_all

lemmas eval_grid = Grid_new_def LinearSize_def GridStrides_def Cell_def Cell_write_def
  GridLinearIndex_def to_size_small to_size_minus_one size_mul_numeral size_add_numeral
  frozen_small small_less_max small_le_max max_not_less_small max_not_le_small max_not_frozen
  face_neighbors_def offset_index_def kNeighborOffsets_def replicate_numeral Let_def

lemmas eval_solver = HighAccuracySolveEikonal_def SolveEikonal_def SolveEikonalQuadratic_def
  Squared_def InverseSquared_def sqrt_nine

lemmas eval_march = Push_def Pop_def HeapComparison_def adjust_heap_def push_heap.simps
  adjust_heap_loop.simps March_step_def UpdateNeighbors_def MarchNarrowBand_numeral
  MarchNarrowBand_one

lemmas eval_unsigned = UnsignedDistance_def SetBoundaryCondition_def unsigned_distance_predicate_def
  InitialUnsignedNarrowBand_def



section \<open>Side effects of the boundary condition\<close>







section \<open>A failing solve ends the march\<close>

lemma UpdateNeighbors_loop_first_failure:
  assumes "\<forall>n\<in>set pre. \<not> Inside n (Grid_size g) \<or>
             (\<exists>c. Cell g n = Inr c \<and> (frozen c \<or> (\<exists>d. solver n g = Inr d)))"
    and "Inside y (Grid_size g)" and "Cell g y = Inr v" and "\<not> frozen v" and "solver y g = Inl e"
  shows "UpdateNeighbors_loop solver g (pre @ y # post) b = Inl e"
  using assms(1)
proof (induction pre arbitrary: b)
  case Nil
  then show ?case using assms(2-5) by simp
next
  case (Cons n pre)
  then have rec: "UpdateNeighbors_loop solver g (pre @ y # post) b' = Inl e" for b'
    by simp
  from Cons.prems have "\<not> Inside n (Grid_size g) \<or>
             (\<exists>c. Cell g n = Inr c \<and> (frozen c \<or> (\<exists>d. solver n g = Inr d)))" by simp
  then show ?case
    using rec by (auto simp: rec)
qed

text \<open>
  Claim C3 (amended). Nothing catches a failure of the solver. Let an iteration of the march
  pop the entry \<open>(d, x)\<close> of a cell that is not frozen and write \<open>d\<close> there, giving the grid
  \<open>g\<close>. Let \<open>y\<close> be a face neighbour of \<open>x\<close> that is inside the grid and not frozen, on which
  the solver fails with the error \<open>e\<close>, every face neighbour visited before \<open>y\<close> being outside
  the grid, frozen, or solved without error. Then \<open>UpdateNeighbors\<close> ends with that error \<open>e\<close>,
  and so do the iteration and the whole march: no band is returned, so the faulty pair is not
  pushed, and no later iteration runs. Moreover, whenever \<open>UpdateNeighbors\<close> does return a
  band, each of its entries was in the band before or holds a face neighbour of \<open>x\<close> together
  with the distance that the solver returned for it.
\<close>

theorem solver_failure_ends_the_march:
  "(Pop band = Inr ((d, x), rest) \<and> Cell g0 x = Inr w \<and> \<not> frozen w \<and> Cell_write g0 x d = Inr g \<and>
    face_neighbors x = pre @ y # post \<and>
    (\<forall>n\<in>set pre. \<not> Inside n (Grid_size g) \<or>
       (\<exists>c. Cell g n = Inr c \<and> (frozen c \<or> (\<exists>d'. solver n g = Inr d')))) \<and>
    Inside y (Grid_size g) \<and> Cell g y = Inr v \<and> \<not> frozen v \<and> solver y g = Inl e \<longrightarrow>
      UpdateNeighbors x solver g rest = Inl e \<and>
      March_step solver (band, g0) = Inl e \<and>
      MarchNarrowBand (Suc n) solver band g0 = Some (Inl e)) \<and>
   (UpdateNeighbors x solver g b = Inr b' \<and> p \<in> set b' \<longrightarrow>
      p \<in> set b \<or> (snd p \<in> set (face_neighbors x) \<and> solver (snd p) g = Inr (fst p)))"
proof -
  have 1: "UpdateNeighbors x solver g rest = Inl e \<and>
      March_step solver (band, g0) = Inl e \<and>
      MarchNarrowBand (Suc n) solver band g0 = Some (Inl e)"
    if pop: "Pop band = Inr ((d, x), rest)" and c: "Cell g0 x = Inr w" "\<not> frozen w"
      "Cell_write g0 x d = Inr g"
      and f: "face_neighbors x = pre @ y # post"
      and pre: "\<forall>n\<in>set pre. \<not> Inside n (Grid_size g) \<or>
         (\<exists>c. Cell g n = Inr c \<and> (frozen c \<or> (\<exists>d'. solver n g = Inr d')))"
      and y: "Inside y (Grid_size g)" "Cell g y = Inr v" "\<not> frozen v" "solver y g = Inl e"
  proof -
    have u: "UpdateNeighbors x solver g rest = Inl e"
      unfolding UpdateNeighbors_def f using pre y by (rule UpdateNeighbors_loop_first_failure)
    have st: "March_step solver (band, g0) = Inl e" using pop c u by (simp add: March_step_def)
    have "band \<noteq> []" using pop by (auto simp: Pop_def split: if_splits)
    then show ?thesis using u st by simp
  qed
  have 2: "p \<in> set b \<or> (snd p \<in> set (face_neighbors x) \<and> solver (snd p) g = Inr (fst p))"
    if "UpdateNeighbors x solver g b = Inr b'" "p \<in> set b'"
    using UpdateNeighbors_loop_set [of solver g "face_neighbors x" b b' p] that
    by (simp add: UpdateNeighbors_def)
  show ?thesis using 1 2 by blast
qed

section \<open>Termination of the march\<close>











section \<open>The order of the seeds\<close>

lemma push_heap_mset: "h < length c \<Longrightarrow> mset (push_heap c h v) = mset (c[h := v])"
proof (induction c h v rule: push_heap.induct)
  case (1 c h v)
  let ?p = "(h - 1) div 2"
  show ?case
  proof (cases "h > 0 \<and> HeapComparison (c ! ?p) v")
    case False
    then show ?thesis by (subst push_heap.simps) auto
  next
    case True
    then have ph: "?p < h" by arith
    then have pl: "?p < length c" using "1.prems" by simp
    have "mset (push_heap c h v) = mset (push_heap (c[h := c ! ?p]) ?p v)"
      using True by (subst push_heap.simps) simp
    also have "\<dots> = mset ((c[h := c ! ?p])[?p := v])"
      using "1.IH" [OF True] pl by simp
    also have "\<dots> = mset (c[h := v])"
      using ph pl "1.prems" by (simp add: mset_update nth_list_update)
    finally show ?thesis .
  qed
qed

lemma Push_mset: "mset (Push b v) = add_mset v (mset b)"
  by (simp add: Push_def push_heap_mset)

lemma write_seeds_shape:
  "Grid_size (write_seeds seeds m g) = Grid_size g \<and>
   Grid_strides (write_seeds seeds m g) = Grid_strides g \<and>
   length (Grid_cells (write_seeds seeds m g)) = length (Grid_cells g)"
  by (induction seeds m g rule: write_seeds.induct) simp_all

lemma write_seeds_update: "\<exists>cs. write_seeds seeds m g = g\<lparr>Grid_cells := cs\<rparr>"
proof (induction seeds m g rule: write_seeds.induct)
  case (1 m g)
  have "g = g\<lparr>Grid_cells := Grid_cells g\<rparr>" by simp
  then show ?case by (metis write_seeds.simps(1))
next
  case (2 index distance rest m g)
  then show ?case by auto
qed

lemma write_seeds_other:
  "p \<notin> (\<lambda>s. GridLinearIndex (fst s) (Grid_strides g)) ` set seeds \<Longrightarrow>
   Grid_cells (write_seeds seeds m g) ! p = Grid_cells g ! p"
  by (induction seeds m g rule: write_seeds.induct) auto

lemma write_seeds_seed:
  "(i, d) \<in> set seeds \<Longrightarrow>
   distinct (map (\<lambda>s. GridLinearIndex (fst s) (Grid_strides g)) seeds) \<Longrightarrow>
   GridLinearIndex i (Grid_strides g) < length (Grid_cells g) \<Longrightarrow>
   Grid_cells (write_seeds seeds m g) ! GridLinearIndex i (Grid_strides g) = m * d"
proof (induction seeds m g rule: write_seeds.induct)
  case (1 m g)
  then show ?case by simp
next
  case (2 index distance rest m g)
  let ?g = "g\<lparr>Grid_cells := (Grid_cells g)[GridLinearIndex index (Grid_strides g) := m * distance]\<rparr>"
  show ?case
  proof (cases "(i, d) \<in> set rest")
    case True
    then show ?thesis using "2.IH" "2.prems" by simp
  next
    case False
    then have eq: "index = i" "distance = d" using "2.prems"(1) by auto
    have "GridLinearIndex i (Grid_strides ?g) \<notin>
        (\<lambda>s. GridLinearIndex (fst s) (Grid_strides ?g)) ` set rest"
      using "2.prems"(2) eq by auto
    from write_seeds_other [OF this] show ?thesis using "2.prems"(3) eq by simp
  qed
qed

lemma write_seeds_permuted:
  assumes "mset seeds' = mset seeds"
    and "distinct (map (\<lambda>s. GridLinearIndex (fst s) (Grid_strides g)) seeds)"
    and "\<forall>s\<in>set seeds. GridLinearIndex (fst s) (Grid_strides g) < length (Grid_cells g)"
  shows "write_seeds seeds' m g = write_seeds seeds m g"
proof -
  let ?pos = "\<lambda>s. GridLinearIndex (fst s) (Grid_strides g)"
  have set: "set seeds' = set seeds" using assms(1) by (rule mset_eq_setD)
  have "mset (map ?pos seeds') = mset (map ?pos seeds)" using assms(1) by simp
  then have dist: "distinct (map ?pos seeds')" using assms(2) by (metis mset_eq_imp_distinct_iff)
  have "Grid_cells (write_seeds seeds' m g) = Grid_cells (write_seeds seeds m g)"
  proof (rule nth_equalityI)
    show "length (Grid_cells (write_seeds seeds' m g)) = length (Grid_cells (write_seeds seeds m g))"
      by (simp add: write_seeds_shape)
  next
    fix p assume "p < length (Grid_cells (write_seeds seeds' m g))"
    show "Grid_cells (write_seeds seeds' m g) ! p = Grid_cells (write_seeds seeds m g) ! p"
    proof (cases "p \<in> ?pos ` set seeds")
      case False
      then show ?thesis using write_seeds_other [of p g seeds m] write_seeds_other [of p g seeds' m] set
        by simp
    next
      case True
      then obtain i d where s: "(i, d) \<in> set seeds" "p = GridLinearIndex i (Grid_strides g)" by auto
      then have lt: "GridLinearIndex i (Grid_strides g) < length (Grid_cells g)" using assms(3) by auto
      show ?thesis
        using write_seeds_seed [OF s(1) assms(2) lt, of m] write_seeds_seed [OF _ dist lt, of d m] s set
        by simp
    qed
  qed
  moreover obtain cs where "write_seeds seeds m g = g\<lparr>Grid_cells := cs\<rparr>"
    using write_seeds_update by blast
  moreover obtain cs' where "write_seeds seeds' m g = g\<lparr>Grid_cells := cs'\<rparr>"
    using write_seeds_update by blast
  ultimately show ?thesis by simp
qed

lemma SetBoundaryCondition_loop_None:
  "SetBoundaryCondition_loop seeds 1 unsigned_distance_predicate g = (None, g') \<longleftrightarrow>
     (\<forall>s\<in>set seeds. Inside (fst s) (Grid_size g) \<and> unsigned_distance_predicate (snd s) \<and>
        GridLinearIndex (fst s) (Grid_strides g) < length (Grid_cells g) \<and>
        \<not> frozen (Grid_cells g ! GridLinearIndex (fst s) (Grid_strides g))) \<and>
     distinct (map (\<lambda>s. GridLinearIndex (fst s) (Grid_strides g)) seeds) \<and>
     g' = write_seeds seeds 1 g"
proof (induction seeds arbitrary: g)
  case Nil
  then show ?case by auto
next
  case (Cons s seeds)
  obtain i d where s: "s = (i, d)" by (cases s)
  let ?k = "GridLinearIndex i (Grid_strides g)"
  let ?g = "g\<lparr>Grid_cells := (Grid_cells g)[?k := d]\<rparr>"
  show ?case
  proof (cases "Inside i (Grid_size g) \<and> unsigned_distance_predicate d \<and> ?k < length (Grid_cells g) \<and>
      \<not> frozen (Grid_cells g ! ?k)")
    case False
    then show ?thesis by (auto simp: s Cell_def Cell_write_def Let_def)
  next
    case True
    then have fd: "frozen d" by (simp add: unsigned_distance_predicate_def)
    have step: "SetBoundaryCondition_loop (s # seeds) 1 unsigned_distance_predicate g =
        SetBoundaryCondition_loop seeds 1 unsigned_distance_predicate ?g"
      using True by (simp add: s Cell_def Cell_write_def Let_def)
    have cell: "\<not> frozen (Grid_cells ?g ! GridLinearIndex j (Grid_strides g)) \<longleftrightarrow>
        GridLinearIndex j (Grid_strides g) \<noteq> ?k \<and>
        \<not> frozen (Grid_cells g ! GridLinearIndex j (Grid_strides g))" for j
      using True fd by (auto simp: nth_list_update)
    show ?thesis
      unfolding step Cons.IH using True cell by (auto simp: s image_iff)
  qed
qed


lemma InitialUnsignedNarrowBand_neighbors_append:
  "InitialUnsignedNarrowBand_neighbors solver g (xs @ ys) s =
     (case InitialUnsignedNarrowBand_neighbors solver g xs s of
        Inl e \<Rightarrow> Inl e
      | Inr s' \<Rightarrow> InitialUnsignedNarrowBand_neighbors solver g ys s')"
  by (induction solver g xs s rule: InitialUnsignedNarrowBand_neighbors.induct)
    (auto split: sum.splits)

lemma InitialUnsignedNarrowBand_loop_concat:
  "InitialUnsignedNarrowBand_loop solver g indices s =
     InitialUnsignedNarrowBand_neighbors solver g (concat (map face_neighbors indices)) s"
  by (induction indices arbitrary: s)
    (auto simp: InitialUnsignedNarrowBand_neighbors_append split: sum.splits)

lemma GridLinearIndex_inj:
  assumes "sz \<noteq> []" "prod_list sz < SIZE_MOD"
    and "length m = length sz" "Inside m sz" "length n = length sz" "Inside n sz"
    and "GridLinearIndex m (GridStrides sz) = GridLinearIndex n (GridStrides sz)"
  shows "m = n"
proof -
  have "GridLinearIndex m (GridStrides sz) = radix_value m sz"
    using GridLinearIndex_radix [OF assms(3,4,1,2)] by (rule conjunct1)
  moreover have "GridLinearIndex n (GridStrides sz) = radix_value n sz"
    using GridLinearIndex_radix [OF assms(5,6,1,2)] by (rule conjunct1)
  ultimately have "radix_value m sz = radix_value n sz" using assms(7) by (simp only:)
  then show ?thesis by (rule radix_value_inj [OF assms(3,5,4,6)])
qed

lemma InitialUnsignedNarrowBand_neighbors_entries:
  assumes sz: "sz \<noteq> []" "prod_list sz < SIZE_MOD"
  shows "Grid_size L = sz \<Longrightarrow> Grid_strides L = GridStrides sz \<Longrightarrow>
    length (Grid_cells L) = prod_list sz \<Longrightarrow> \<forall>n\<in>set ns. length n = length sz \<Longrightarrow>
    (case InitialUnsignedNarrowBand_neighbors solver g ns (L, b) of
       Inl e \<Rightarrow>
         \<exists>n\<in>set ns. Inside n sz \<and> Grid_cells L ! GridLinearIndex n (GridStrides sz) = kBackground \<and>
            solver n g = Inl e
     | Inr s' \<Rightarrow>
         mset (snd s') = mset b + image_mset (\<lambda>n. (projr (solver n g), n))
           (mset_set {n \<in> set ns. Inside n sz \<and>
              Grid_cells L ! GridLinearIndex n (GridStrides sz) = kBackground}) \<and>
         (\<forall>n\<in>set ns. Inside n sz \<and>
              Grid_cells L ! GridLinearIndex n (GridStrides sz) = kBackground \<longrightarrow>
            (\<exists>d. solver n g = Inr d)))"
proof (induction ns arbitrary: L b)
  case Nil
  then show ?case by simp
next
  case (Cons n ns)
  let ?pos = "\<lambda>n. GridLinearIndex n (GridStrides sz)"
  let ?new = "\<lambda>L ns. {m \<in> set ns. Inside m sz \<and> Grid_cells L ! ?pos m = kBackground}"
  have lens: "\<forall>n\<in>set ns. length n = length sz" and len: "length n = length sz"
    using Cons.prems(4) by simp_all
  note IH = Cons.IH [OF _ _ _ lens]
  show ?case
  proof (cases "Inside n sz")
    case False
    then have "?new L (n # ns) = ?new L ns" by auto
    moreover have "InitialUnsignedNarrowBand_neighbors solver g (n # ns) (L, b) =
        InitialUnsignedNarrowBand_neighbors solver g ns (L, b)"
      using False Cons.prems(1) by simp
    ultimately show ?thesis
      using IH [OF Cons.prems(1,2,3), of b] False by (auto split: sum.splits)
  next
    case True
    have lt: "?pos n < length (Grid_cells L)"
      using GridLinearIndex_radix [OF len True sz] Cons.prems(3) by simp
    then have cell: "Cell L n = Inr (Grid_cells L ! ?pos n)"
      using Cons.prems(2) by (simp add: Cell_Inr)
    show ?thesis
    proof (cases "Grid_cells L ! ?pos n = kBackground")
      case False
      then have "?new L (n # ns) = ?new L ns" by auto
      moreover have "InitialUnsignedNarrowBand_neighbors solver g (n # ns) (L, b) =
          InitialUnsignedNarrowBand_neighbors solver g ns (L, b)"
        using False True cell Cons.prems(1) by simp
      ultimately show ?thesis
        using IH [OF Cons.prems(1,2,3), of b] False by (auto split: sum.splits)
    next
      case bg: True
      show ?thesis
      proof (cases "solver n g")
        case (Inl e)
        then have "InitialUnsignedNarrowBand_neighbors solver g (n # ns) (L, b) = Inl e"
          using True cell bg Cons.prems(1) by simp
        then show ?thesis using True bg Inl by auto
      next
        case (Inr d)
        let ?L = "L\<lparr>Grid_cells := (Grid_cells L)[?pos n := kNarrowBand]\<rparr>"
        have w: "Cell_write L n kNarrowBand = Inr ?L"
          using lt Cons.prems(2) by (simp add: Cell_write_Inr)
        have step: "InitialUnsignedNarrowBand_neighbors solver g (n # ns) (L, b) =
            InitialUnsignedNarrowBand_neighbors solver g ns (?L, Push b (d, n))"
          using True cell bg Inr w Cons.prems(1) by simp
        have new: "?new ?L ns = ?new L ns - {n}"
        proof -
          have "Grid_cells ?L ! ?pos m = kBackground \<longleftrightarrow>
              Grid_cells L ! ?pos m = kBackground \<and> m \<noteq> n"
            if "m \<in> set ns" "Inside m sz" for m
          proof (cases "?pos m = ?pos n")
            case True
            then have "m = n"
              using GridLinearIndex_inj [OF sz _ that(2) len \<open>Inside n sz\<close>] lens that(1) by simp
            then show ?thesis using lt by simp
          next
            case False
            then show ?thesis by (auto simp: nth_list_update)
          qed
          then show ?thesis by auto
        qed
        have ins: "?new L (n # ns) = insert n (?new L ns)" using True bg by auto
        have fin: "finite (?new L ns)" by simp
        have ms: "mset_set (?new L (n # ns)) = add_mset n (mset_set (?new ?L ns))"
          unfolding ins new using fin by (rule mset_set.insert_remove)
        have shape: "Grid_size ?L = sz" "Grid_strides ?L = GridStrides sz"
          "length (Grid_cells ?L) = prod_list sz"
          using Cons.prems(1,2,3) by simp_all
        show ?thesis
        proof (cases "InitialUnsignedNarrowBand_neighbors solver g ns (?L, Push b (d, n))")
          case e: (Inl e)
          then obtain m where "m \<in> set ns" "Inside m sz" "Grid_cells ?L ! ?pos m = kBackground"
            "solver m g = Inl e"
            using IH [OF shape, of "Push b (d, n)"] by auto
          moreover from this have "m \<in> ?new L ns" using new by blast
          ultimately show ?thesis unfolding step e by auto
        next
          case r: (Inr s')
          from IH [OF shape, of "Push b (d, n)"]
          have 1: "mset (snd s') = mset (Push b (d, n)) + image_mset (\<lambda>n. (projr (solver n g), n))
              (mset_set (?new ?L ns))"
            and 2: "\<forall>m\<in>?new ?L ns. \<exists>d. solver m g = Inr d"
            unfolding r by auto
          have "mset (snd s') = mset b + image_mset (\<lambda>n. (projr (solver n g), n))
              (mset_set (?new L (n # ns)))"
            unfolding 1 ms by (simp add: Push_mset Inr)
          moreover have "\<forall>m\<in>?new L (n # ns). \<exists>d. solver m g = Inr d"
            using 2 Inr unfolding ins new by auto
          ultimately show ?thesis unfolding step r by auto
        qed
      qed
    qed
  qed
qed


lemma reorder_nth:
  assumes "mset ps = mset [0 ..< length xs]"
  shows "reorder ps xs = map (\<lambda>k. xs ! k) ps \<and> length (reorder ps xs) = length xs \<and>
         mset (reorder ps xs) = mset xs"
proof -
  have "length ps = length [0 ..< length xs]" using assms by (rule mset_eq_length)
  then have len: "length (reorder ps xs) = length xs" by (simp add: reorder_def)
  have "mset (map (\<lambda>k. xs ! k) ps) = mset (map (\<lambda>k. xs ! k) [0 ..< length xs])"
    by (simp only: mset_map assms)
  then have "mset (reorder ps xs) = mset xs" by (simp only: reorder_def map_nth)
  then show ?thesis using len by (simp add: reorder_def)
qed

lemma reorder_zip:
  assumes "mset ps = mset [0 ..< length xs]" and "length ys = length xs"
  shows "mset (zip (reorder ps xs) (reorder ps ys)) = mset (zip xs ys)"
proof -
  have "set ps = set [0 ..< length xs]" using assms(1) by (rule mset_eq_setD)
  then have "\<forall>k\<in>set ps. k < length xs" by simp
  then have "zip (reorder ps xs) (reorder ps ys) = reorder ps (zip xs ys)"
    unfolding reorder_def using assms(2) by (induction ps) simp_all
  then have eq: "zip (reorder ps xs) (reorder ps ys) = reorder ps (zip xs ys)" .
  have "length (zip xs ys) = length xs" using assms(2) by simp
  then have "mset ps = mset [0 ..< length (zip xs ys)]" using assms(1) by (simp only:)
  from reorder_nth [OF this] have "mset (reorder ps (zip xs ys)) = mset (zip xs ys)" by blast
  then show ?thesis unfolding eq .
qed

lemma SetBoundaryCondition_loop_permuted:
  assumes "mset seeds' = mset seeds"
    and "SetBoundaryCondition_loop seeds 1 unsigned_distance_predicate g0 = (None, g)"
  shows "SetBoundaryCondition_loop seeds' 1 unsigned_distance_predicate g0 = (None, g)"
proof -
  let ?pos = "\<lambda>s. GridLinearIndex (fst s) (Grid_strides g0)"
  from assms(2) [unfolded SetBoundaryCondition_loop_None]
  have ok: "\<forall>s\<in>set seeds. Inside (fst s) (Grid_size g0) \<and>
        unsigned_distance_predicate (snd s) \<and> ?pos s < length (Grid_cells g0) \<and>
        \<not> frozen (Grid_cells g0 ! ?pos s)"
    and dist: "distinct (map ?pos seeds)" and g: "g = write_seeds seeds 1 g0"
    by blast+
  have set: "set seeds' = set seeds" using assms(1) by (rule mset_eq_setD)
  have "mset (map ?pos seeds') = mset (map ?pos seeds)" using assms(1) by simp
  then have dist': "distinct (map ?pos seeds')" using dist by (metis mset_eq_imp_distinct_iff)
  have "g = write_seeds seeds' 1 g0"
    using write_seeds_permuted [OF assms(1) dist, of 1] ok g by simp
  then show ?thesis
    unfolding SetBoundaryCondition_loop_None using ok dist' set by simp
qed

lemma SetBoundaryCondition_permuted:
  assumes "mset ps = mset [0 ..< length indices]"
    and "SetBoundaryCondition indices distances 1 unsigned_distance_predicate g0 = (None, g)"
  shows "SetBoundaryCondition (reorder ps indices) (reorder ps distances) 1
           unsigned_distance_predicate g0 = (None, g)"
proof -
  from assms(2) have ne: "indices \<noteq> []" and len: "length distances = length indices"
    by (auto simp: SetBoundaryCondition_def split: if_splits)
  obtain r g1 where l: "SetBoundaryCondition_loop (zip indices distances) 1
      unsigned_distance_predicate g0 = (r, g1)"
    by (cases "SetBoundaryCondition_loop (zip indices distances) 1 unsigned_distance_predicate g0")
  then have r: "r = None" "g1 = g" and full: "length indices \<noteq> LinearSize (Grid_size g)"
    using assms(2) ne len by (auto simp: SetBoundaryCondition_def split: if_splits option.splits)
  have ps: "mset ps = mset [0 ..< length distances]" using assms(1) len by simp
  have "SetBoundaryCondition_loop (zip (reorder ps indices) (reorder ps distances)) 1
      unsigned_distance_predicate g0 = (None, g)"
    using SetBoundaryCondition_loop_permuted [OF reorder_zip [OF assms(1) len]] l r by simp
  moreover have "length (reorder ps indices) = length indices"
    "length (reorder ps distances) = length distances"
    using reorder_nth [OF assms(1)] reorder_nth [OF ps] by blast+
  ultimately show ?thesis
    using ne len full by (auto simp: SetBoundaryCondition_def)
qed

lemma face_neighbors_empty: "\<forall>i\<in>set indices. i = [] \<Longrightarrow> concat (map face_neighbors indices) = []"
  by (induction indices) (simp_all add: face_neighbors_def)

lemma InitialUnsignedNarrowBand_permuted:
  assumes set: "set indices' = set indices"
    and small: "prod_list (Grid_size g) < SIZE_MOD"
    and lens: "\<forall>i\<in>set indices. length i = length (Grid_size g)"
    and band: "InitialUnsignedNarrowBand indices g solver = Inr band"
  shows "\<exists>band'. InitialUnsignedNarrowBand indices' g solver = Inr band' \<and> mset band' = mset band"
proof -
  let ?sz = "Grid_size g"
  let ?ns = "concat (map face_neighbors indices)"
  let ?ns' = "concat (map face_neighbors indices')"
  from band obtain L where L: "Grid_new ?sz (replicate (LinearSize ?sz) kBackground) = Inr L"
    by (cases "Grid_new ?sz (replicate (LinearSize ?sz) kBackground) :: error + NarrowBandCell Grid")
      (auto simp: InitialUnsignedNarrowBand_def)
  from band L obtain s where s: "InitialUnsignedNarrowBand_neighbors solver g ?ns (L, []) = Inr s"
    and b: "band = snd s"
    by (cases "InitialUnsignedNarrowBand_neighbors solver g ?ns (L, [])")
      (auto simp: InitialUnsignedNarrowBand_def InitialUnsignedNarrowBand_loop_concat)
  have res: "InitialUnsignedNarrowBand indices' g solver =
      (case InitialUnsignedNarrowBand_neighbors solver g ?ns' (L, []) of
         Inl e \<Rightarrow> Inl e | Inr s \<Rightarrow> Inr (snd s))"
    using L by (simp add: InitialUnsignedNarrowBand_def InitialUnsignedNarrowBand_loop_concat)
  show ?thesis
  proof (cases "?sz = []")
    case True
    then have "\<forall>i\<in>set indices. i = []" "\<forall>i\<in>set indices'. i = []" using lens set by simp_all
    then have e: "?ns = []" "?ns' = []" by (simp_all only: face_neighbors_empty)
    show ?thesis using res s b unfolding e by auto
  next
    case False
    note gL = Grid_new_Inr [OF L]
    have shape: "Grid_size L = ?sz" "Grid_strides L = GridStrides ?sz"
      "length (Grid_cells L) = prod_list ?sz"
      using gL LinearSize_prod [OF small] by simp_all
    have nset: "set ?ns' = set ?ns" using set by simp
    have nlen: "\<forall>n\<in>set ?ns. length n = length ?sz"
      using lens by (auto simp: face_neighbors_index_length)
    then have nlen': "\<forall>n\<in>set ?ns'. length n = length ?sz" using nset by simp
    let ?new = "\<lambda>ns. {n \<in> set ns. Inside n ?sz \<and>
        Grid_cells L ! GridLinearIndex n (GridStrides ?sz) = kBackground}"
    have new: "?new ?ns' = ?new ?ns" using nset by simp
    from InitialUnsignedNarrowBand_neighbors_entries [OF False small shape nlen, of solver g "[]"]
    have 1: "mset band = image_mset (\<lambda>n. (projr (solver n g), n)) (mset_set (?new ?ns))"
      and ok: "\<forall>n\<in>?new ?ns. \<exists>d. solver n g = Inr d"
      unfolding s b by auto
    show ?thesis
    proof (cases "InitialUnsignedNarrowBand_neighbors solver g ?ns' (L, [])")
      case (Inl e)
      with InitialUnsignedNarrowBand_neighbors_entries [OF False small shape nlen', of solver g "[]"]
      obtain n where n: "n \<in> ?new ?ns'" "solver n g = Inl e" by auto
      from n(1) have "n \<in> ?new ?ns" unfolding new .
      with ok obtain d where "solver n g = Inr d" by blast
      then show ?thesis using n(2) by simp
    next
      case (Inr s')
      with InitialUnsignedNarrowBand_neighbors_entries [OF False small shape nlen', of solver g "[]"]
      have "mset (snd s') = image_mset (\<lambda>n. (projr (solver n g), n)) (mset_set (?new ?ns'))"
        by simp
      then have "mset (snd s') = mset band" unfolding new 1 .
      then show ?thesis using res Inr by simp
    qed
  qed
qed

lemma UnsignedDistance_seed_cells:
  assumes "UnsignedDistance n grid_size indices distances solver = Some (Inr buf)"
    and "k < length indices"
  shows "length buf = LinearSize grid_size \<and>
         buf ! GridLinearIndex (indices ! k) (GridStrides grid_size) = distances ! k"
proof -
  from assms(1) obtain g0 where
    g0: "Grid_new grid_size (replicate (LinearSize grid_size) numeric_limits_max) = Inr g0"
    by (cases "Grid_new grid_size (replicate (LinearSize grid_size) numeric_limits_max) :: error + real Grid")
      (auto simp: UnsignedDistance_def)
  obtain r g where sb: "SetBoundaryCondition indices distances 1 unsigned_distance_predicate g0 = (r, g)"
    by (cases "SetBoundaryCondition indices distances 1 unsigned_distance_predicate g0")
  then have r: "r = None" using assms(1) g0 by (cases r) (auto simp: UnsignedDistance_def)
  from assms(1) g0 sb r obtain band where
    band: "InitialUnsignedNarrowBand indices g solver = Inr band"
    by (cases "InitialUnsignedNarrowBand indices g solver") (auto simp: UnsignedDistance_def)
  from assms(1) g0 sb r band obtain g' where
    m: "MarchNarrowBand n solver band g = Some (Inr g')" and buf: "buf = Grid_cells g'"
    by (auto simp: UnsignedDistance_def split: option.splits sum.splits)
  note G = Grid_new_Inr [OF g0]
  from sb r have len: "length distances = length indices"
    and l: "SetBoundaryCondition_loop (zip indices distances) 1 unsigned_distance_predicate g0 =
      (None, g)"
    by (auto simp: SetBoundaryCondition_def split: if_splits option.splits prod.splits)
  let ?pos = "\<lambda>s. GridLinearIndex (fst s) (Grid_strides g0)"
  from l [unfolded SetBoundaryCondition_loop_None]
  have ok: "\<forall>s\<in>set (zip indices distances). Inside (fst s) (Grid_size g0) \<and>
        unsigned_distance_predicate (snd s) \<and> ?pos s < length (Grid_cells g0) \<and>
        \<not> frozen (Grid_cells g0 ! ?pos s)"
    and dist: "distinct (map ?pos (zip indices distances))"
    and g: "g = write_seeds (zip indices distances) 1 g0"
    by blast+
  have mem: "(indices ! k, distances ! k) \<in> set (zip indices distances)"
    using assms(2) len by (auto simp: in_set_zip)
  let ?k = "GridLinearIndex (indices ! k) (Grid_strides g0)"
  have lt: "?k < length (Grid_cells g0)" and fr: "frozen (distances ! k)"
    using ok mem by (auto simp: unsigned_distance_predicate_def)
  have v: "Grid_cells g ! ?k = distances ! k"
    using write_seeds_seed [OF mem dist lt, of 1] g by simp
  have shape: "length (Grid_cells g) = length (Grid_cells g0)"
    using g by (simp add: write_seeds_shape)
  from MarchNarrowBand_frozen_kept [OF m, of ?k] lt fr v shape
  have "Grid_cells g' ! ?k = distances ! k" "length (Grid_cells g') = length (Grid_cells g0)"
    by simp_all
  then show ?thesis using buf G by simp
qed

text \<open>
  Claim C9 (amended). Let the seeds be valid: on a grid whose extent does not overflow,
  \<open>SetBoundaryCondition\<close> accepts them and the initial narrow band is built without error.
  When the seed indices and the seed distances are reordered by the same permutation, the
  driver seeds the same distance grid and starts the march from a narrow band that holds the
  same entries, each as often as before; only their arrangement in the heap may differ.
  Buffers returned for the two orderings have the same length and hold, at the cell of every
  seed, the distance of that seed. The other cells are not covered: entries of equal
  distance are popped in an order that depends on the arrangement of the heap.
\<close>

theorem UnsignedDistance_reordered_seeds:
  assumes "mset ps = mset [0 ..< length indices]"
    and "prod_list grid_size < SIZE_MOD" and "\<forall>i\<in>set indices. length i = length grid_size"
    and "Grid_new grid_size (replicate (LinearSize grid_size) numeric_limits_max) = Inr g0"
    and "SetBoundaryCondition indices distances 1 unsigned_distance_predicate g0 = (None, g)"
    and "InitialUnsignedNarrowBand indices g solver = Inr band"
  shows "SetBoundaryCondition (reorder ps indices) (reorder ps distances) 1
           unsigned_distance_predicate g0 = (None, g) \<and>
         (\<exists>band'. InitialUnsignedNarrowBand (reorder ps indices) g solver = Inr band' \<and>
            mset band' = mset band) \<and>
         (UnsignedDistance n grid_size indices distances solver = Some (Inr buf) \<and>
          UnsignedDistance n' grid_size (reorder ps indices) (reorder ps distances) solver =
            Some (Inr buf') \<longrightarrow>
            length buf' = length buf \<and>
            (\<forall>k<length indices.
               buf ! GridLinearIndex (indices ! k) (GridStrides grid_size) = distances ! k \<and>
               buf' ! GridLinearIndex (indices ! k) (GridStrides grid_size) = distances ! k))"
proof -
  note P = reorder_nth [OF assms(1)]
  from assms(5) have len: "length distances = length indices"
    by (auto simp: SetBoundaryCondition_def split: if_splits)
  then have ps: "mset ps = mset [0 ..< length distances]" using assms(1) by simp
  note Q = reorder_nth [OF ps]
  have 1: "SetBoundaryCondition (reorder ps indices) (reorder ps distances) 1
           unsigned_distance_predicate g0 = (None, g)"
    using assms(1,5) by (rule SetBoundaryCondition_permuted)
  have sz: "Grid_size g = grid_size"
  proof -
    from assms(5) have "SetBoundaryCondition_loop (zip indices distances) 1
        unsigned_distance_predicate g0 = (None, g)"
      by (auto simp: SetBoundaryCondition_def split: if_splits option.splits prod.splits)
    then have "g = write_seeds (zip indices distances) 1 g0"
      by (simp only: SetBoundaryCondition_loop_None)
    then show ?thesis using Grid_new_Inr [OF assms(4)] by (simp add: write_seeds_shape)
  qed
  have "set (reorder ps indices) = set indices" using P by (metis mset_eq_setD)
  then have 2: "\<exists>band'. InitialUnsignedNarrowBand (reorder ps indices) g solver = Inr band' \<and>
            mset band' = mset band"
    using assms(2,3,6) sz by (intro InitialUnsignedNarrowBand_permuted) simp_all
  have 3: "length buf' = length buf \<and>
            (\<forall>k<length indices.
               buf ! GridLinearIndex (indices ! k) (GridStrides grid_size) = distances ! k \<and>
               buf' ! GridLinearIndex (indices ! k) (GridStrides grid_size) = distances ! k)"
    if a: "UnsignedDistance n grid_size indices distances solver = Some (Inr buf)"
      and b: "UnsignedDistance n' grid_size (reorder ps indices) (reorder ps distances) solver =
            Some (Inr buf')"
  proof -
    have "indices \<noteq> []" using assms(5) by (auto simp: SetBoundaryCondition_def split: if_splits)
    then have "0 < length indices" by simp
    from UnsignedDistance_seed_cells [OF a this] have la: "length buf = LinearSize grid_size" by simp
    have "length (reorder ps indices) = length indices" using P by blast
    then have "0 < length (reorder ps indices)" using \<open>0 < length indices\<close> by (simp only:)
    from UnsignedDistance_seed_cells [OF b this] have lb: "length buf' = LinearSize grid_size" by simp
    have "buf ! GridLinearIndex (indices ! k) (GridStrides grid_size) = distances ! k \<and>
          buf' ! GridLinearIndex (indices ! k) (GridStrides grid_size) = distances ! k"
      if k: "k < length indices" for k
    proof -
      have "k \<in> set ps" using mset_eq_setD [OF assms(1)] k by simp
      then obtain j where j: "j < length ps" "ps ! j = k" by (auto simp: in_set_conv_nth)
      then have jl: "j < length (reorder ps indices)" by (simp add: reorder_def)
      have "reorder ps indices ! j = indices ! k" "reorder ps distances ! j = distances ! k"
        using j by (simp_all add: reorder_def)
      then show ?thesis
        using UnsignedDistance_seed_cells [OF a k] UnsignedDistance_seed_cells [OF b jl] by simp
    qed
    then show ?thesis using la lb by simp
  qed
  show ?thesis using 1 2 3 by blast
qed


section \<open>Instances\<close>

theorem frozen_cells_are_never_overwritten_witness:
  "March_step (Solve (UniformSpeedEikonalSolver [1] 1)) ([(1, [1])],
      \<lparr>Grid_size = [4], Grid_strides = [],
         Grid_cells = [0, numeric_limits_max, numeric_limits_max, numeric_limits_max]\<rparr>) =
     Inr ([(2, [2])], \<lparr>Grid_size = [4], Grid_strides = [],
         Grid_cells = [0, 1, numeric_limits_max, numeric_limits_max]\<rparr>) \<and>
   Cell \<lparr>Grid_size = [4], Grid_strides = [],
         Grid_cells = [0, numeric_limits_max, numeric_limits_max, numeric_limits_max]\<rparr> [0] = Inr 0 \<and>
   frozen 0 \<and>
   Cell \<lparr>Grid_size = [4], Grid_strides = [],
         Grid_cells = [0, 1, numeric_limits_max, numeric_limits_max]\<rparr> [0] = Inr 0 \<and>
   MarchNarrowBand 5 (Solve (UniformSpeedEikonalSolver [1] 1)) [(1, [1])]
      \<lparr>Grid_size = [4], Grid_strides = [],
         Grid_cells = [0, numeric_limits_max, numeric_limits_max, numeric_limits_max]\<rparr> =
     Some (Inr \<lparr>Grid_size = [4], Grid_strides = [], Grid_cells = [0, 1, 2, 3]\<rparr>) \<and>
   Cell \<lparr>Grid_size = [4], Grid_strides = [], Grid_cells = [0, 1, 2, 3]\<rparr> [0] = Inr 0 \<and>
   Pop [(5, [0])] = Inr ((5, [0]), []) \<and>
   March_step (Solve (UniformSpeedEikonalSolver [1] 1)) ([(5, [0])],
      \<lparr>Grid_size = [4], Grid_strides = [],
         Grid_cells = [0, numeric_limits_max, numeric_limits_max, numeric_limits_max]\<rparr>) =
     Inr ([], \<lparr>Grid_size = [4], Grid_strides = [],
         Grid_cells = [0, numeric_limits_max, numeric_limits_max, numeric_limits_max]\<rparr>)"
  using frozen_cells_are_never_overwritten
    [where solver = "Solve (UniformSpeedEikonalSolver [1] 1)" and band = "[(1, [1])]"
      and g = "\<lparr>Grid_size = [4], Grid_strides = [],
         Grid_cells = [0, numeric_limits_max, numeric_limits_max, numeric_limits_max]\<rparr>"
      and x = "[0]" and v = 0 and n = 5]
    frozen_cells_are_never_overwritten
    [where solver = "Solve (UniformSpeedEikonalSolver [1] 1)" and band = "[(5, [0])]"
      and g = "\<lparr>Grid_size = [4], Grid_strides = [],
         Grid_cells = [0, numeric_limits_max, numeric_limits_max, numeric_limits_max]\<rparr>"
      and d = 5 and y = "[0]" and rest = "[]" and w = 0]
  by (simp add: eval_grid eval_solver eval_march)










theorem solver_failure_ends_the_march_witness:
  "Pop [(1, [1, 0])] = Inr ((1, [1, 0]), []) \<and>
   Cell \<lparr>Grid_size = [3, 2], Grid_strides = [3],
       Grid_cells = [0, numeric_limits_max, numeric_limits_max, numeric_limits_max, numeric_limits_max, 10]\<rparr> [1, 0] =
     Inr numeric_limits_max \<and>
   \<not> frozen numeric_limits_max \<and>
   Cell_write \<lparr>Grid_size = [3, 2], Grid_strides = [3],
       Grid_cells = [0, numeric_limits_max, numeric_limits_max, numeric_limits_max, numeric_limits_max, 10]\<rparr>
       [1, 0] 1 =
     Inr \<lparr>Grid_size = [3, 2], Grid_strides = [3],
       Grid_cells = [0, 1, numeric_limits_max, numeric_limits_max, numeric_limits_max, 10]\<rparr> \<and>
   face_neighbors [1, 0] = [[0, 0]] @ [2, 0] # [[1, - 1], [1, 1]] \<and>
   Inside [0, 0] [3, 2] \<and>
   Cell \<lparr>Grid_size = [3, 2], Grid_strides = [3],
       Grid_cells = [0, 1, numeric_limits_max, numeric_limits_max, numeric_limits_max, 10]\<rparr> [0, 0] = Inr 0 \<and>
   frozen 0 \<and>
   Inside [2, 0] [3, 2] \<and>
   Cell \<lparr>Grid_size = [3, 2], Grid_strides = [3],
       Grid_cells = [0, 1, numeric_limits_max, numeric_limits_max, numeric_limits_max, 10]\<rparr> [2, 0] =
     Inr numeric_limits_max \<and>
   Solve (UniformSpeedEikonalSolver [1, 1] 1) [2, 0]
     \<lparr>Grid_size = [3, 2], Grid_strides = [3],
       Grid_cells = [0, 1, numeric_limits_max, numeric_limits_max, numeric_limits_max, 10]\<rparr> =
     Inl NegativeDiscriminant \<and>
   UpdateNeighbors [1, 0] (Solve (UniformSpeedEikonalSolver [1, 1] 1))
     \<lparr>Grid_size = [3, 2], Grid_strides = [3],
       Grid_cells = [0, 1, numeric_limits_max, numeric_limits_max, numeric_limits_max, 10]\<rparr> [] =
     Inl NegativeDiscriminant \<and>
   March_step (Solve (UniformSpeedEikonalSolver [1, 1] 1)) ([(1, [1, 0])],
     \<lparr>Grid_size = [3, 2], Grid_strides = [3],
       Grid_cells = [0, numeric_limits_max, numeric_limits_max, numeric_limits_max, numeric_limits_max, 10]\<rparr>) =
     Inl NegativeDiscriminant \<and>
   MarchNarrowBand (Suc 0) (Solve (UniformSpeedEikonalSolver [1, 1] 1)) [(1, [1, 0])]
     \<lparr>Grid_size = [3, 2], Grid_strides = [3],
       Grid_cells = [0, numeric_limits_max, numeric_limits_max, numeric_limits_max, numeric_limits_max, 10]\<rparr> =
     Some (Inl NegativeDiscriminant) \<and>
   UpdateNeighbors [1] (Solve (UniformSpeedEikonalSolver [1] 1))
     \<lparr>Grid_size = [4], Grid_strides = [],
       Grid_cells = [0, 1, numeric_limits_max, numeric_limits_max]\<rparr> [] = Inr [(2, [2])] \<and>
   (2, [2]) \<in> set [(2 :: real, [2 :: int])] \<and>
   snd (2 :: real, [2 :: int]) \<in> set (face_neighbors [1]) \<and>
   Solve (UniformSpeedEikonalSolver [1] 1) (snd (2 :: real, [2 :: int]))
     \<lparr>Grid_size = [4], Grid_strides = [],
       Grid_cells = [0, 1, numeric_limits_max, numeric_limits_max]\<rparr> = Inr (fst (2 :: real, [2 :: int]))"
  using solver_failure_ends_the_march
    [where x = "[1, 0]" and y = "[2, 0]" and pre = "[[0, 0]]" and post = "[[1, - 1], [1, 1]]"
      and solver = "Solve (UniformSpeedEikonalSolver [1, 1] 1)"
      and g = "\<lparr>Grid_size = [3, 2], Grid_strides = [3],
       Grid_cells = [0, 1, numeric_limits_max, numeric_limits_max, numeric_limits_max, 10]\<rparr>"
      and g0 = "\<lparr>Grid_size = [3, 2], Grid_strides = [3],
       Grid_cells = [0, numeric_limits_max, numeric_limits_max, numeric_limits_max, numeric_limits_max, 10]\<rparr>"
      and band = "[(1, [1, 0])]" and rest = "[]" and d = 1 and w = numeric_limits_max
      and v = numeric_limits_max and e = NegativeDiscriminant and n = 0 and b = "[]"
      and b' = "[]" and p = "(0, [])"]
    solver_failure_ends_the_march
    [where x = "[1]" and solver = "Solve (UniformSpeedEikonalSolver [1] 1)"
      and g = "\<lparr>Grid_size = [4], Grid_strides = [],
       Grid_cells = [0, 1, numeric_limits_max, numeric_limits_max]\<rparr>"
      and band = "[]" and b = "[]" and b' = "[(2, [2])]" and p = "(2, [2])"]
  by (simp add: eval_grid eval_solver eval_march)

text \<open>
  Claim C3 as stated fails: with the seeds \<open>(0,0) \<mapsto> 0\<close> and \<open>(2,1) \<mapsto> 10\<close> on a \<open>3 \<times> 2\<close> grid
  the first iteration freezes \<open>(1,0)\<close>, the quadratic of its neighbour \<open>(2,0)\<close> has a negative
  discriminant, and the driver ends with that error instead of going on.
\<close>

theorem solver_failure_is_not_localized_counterexample:
  "UnsignedDistance 10 [3, 2] [[0, 0], [2, 1]] [0, 10] (Solve (UniformSpeedEikonalSolver [1, 1] 1)) =
     Some (Inl NegativeDiscriminant)"
  by (simp add: eval_grid eval_solver eval_march eval_unsigned)

text \<open>
  Claim C2 fails on the code. On the one-dimensional grid \<open>[4, 5, \<infinity>, 3, \<infinity>]\<close> the focal cell
  \<open>2\<close> has its smaller face neighbour to the right (value \<open>3\<close>), whose two-step neighbour is
  not frozen. The loop keeps the two-step value \<open>4\<close> found on the left, and the solver uses the
  second-order terms with \<open>m1 = 3\<close>, \<open>m2 = 4\<close>: it returns \<open>10/3\<close>, where the first-order
  terms give \<open>4\<close>.
\<close>

theorem HighAccuracySolveEikonal_stale_two_step_value:
  "HighAccuracy_neighbors
     \<lparr>Grid_size = [5], Grid_strides = [],
        Grid_cells = [4, 5, numeric_limits_max, 3, numeric_limits_max]\<rparr> [2] 0 kNeighborOffsets
     (numeric_limits_max, numeric_limits_max) = Inr (3, 4) \<and>
   HighAccuracySolveEikonal [2]
     \<lparr>Grid_size = [5], Grid_strides = [],
        Grid_cells = [4, 5, numeric_limits_max, 3, numeric_limits_max]\<rparr> 1 [1] = Inr (10 / 3) \<and>
   SolveEikonal [2]
     \<lparr>Grid_size = [5], Grid_strides = [],
        Grid_cells = [4, 5, numeric_limits_max, 3, numeric_limits_max]\<rparr> 1 [1] = Inr 4"
  by (simp add: eval_grid eval_solver)

text \<open>
  Claim C9 as stated fails: with the high-order solver on a grid of six cells, the seeds
  \<open>0 \<mapsto> 0\<close>, \<open>2 \<mapsto> 1\<close>, \<open>5 \<mapsto> 0\<close> give cell \<open>3\<close> the value \<open>5/3\<close>, and the same seeds in
  reverse order give it the value \<open>2\<close>: the cells \<open>1\<close> and \<open>4\<close> enter the narrow band with the
  same distance, and the one pushed first is frozen first.
\<close>

theorem UnsignedDistance_seed_order_counterexample:
  "UnsignedDistance 10 [6] [[0], [2], [5]] [0, 1, 0]
     (Solve (HighAccuracyUniformSpeedEikonalSolver [1] 1)) = Some (Inr [0, 1, 1, 5 / 3, 1, 0]) \<and>
   UnsignedDistance 10 [6] [[5], [2], [0]] [0, 1, 0]
     (Solve (HighAccuracyUniformSpeedEikonalSolver [1] 1)) = Some (Inr [0, 1, 1, 2, 1, 0])"
  by (simp add: eval_grid eval_solver eval_march eval_unsigned)





theorem UnsignedDistance_reordered_seeds_witness:
  "mset [2, 1, 0] = mset [0 ..< length [[0 :: int], [2], [5]]] \<and>
   prod_list [6] < SIZE_MOD \<and>
   length [0 :: int] = length [6 :: nat] \<and> length [2 :: int] = length [6 :: nat] \<and>
   length [5 :: int] = length [6 :: nat] \<and>
   Grid_new [6] (replicate (LinearSize [6]) numeric_limits_max) =
     Inr \<lparr>Grid_size = [6], Grid_strides = [],
       Grid_cells = [numeric_limits_max, numeric_limits_max, numeric_limits_max,
         numeric_limits_max, numeric_limits_max, numeric_limits_max]\<rparr> \<and>
   SetBoundaryCondition [[0], [2], [5]] [0, 1, 0] 1 unsigned_distance_predicate
     \<lparr>Grid_size = [6], Grid_strides = [],
       Grid_cells = [numeric_limits_max, numeric_limits_max, numeric_limits_max,
         numeric_limits_max, numeric_limits_max, numeric_limits_max]\<rparr> =
     (None, \<lparr>Grid_size = [6], Grid_strides = [],
       Grid_cells = [0, numeric_limits_max, 1, numeric_limits_max, numeric_limits_max, 0]\<rparr>) \<and>
   InitialUnsignedNarrowBand [[0], [2], [5]]
     \<lparr>Grid_size = [6], Grid_strides = [],
       Grid_cells = [0, numeric_limits_max, 1, numeric_limits_max, numeric_limits_max, 0]\<rparr>
     (Solve (HighAccuracyUniformSpeedEikonalSolver [1] 1)) =
     Inr [(1, [1]), (2, [3]), (1, [4])] \<and>
   reorder [2, 1, 0] [[0 :: int], [2], [5]] = [[5], [2], [0]] \<and>
   reorder [2, 1, 0] [0 :: real, 1, 0] = [0, 1, 0] \<and>
   SetBoundaryCondition [[5], [2], [0]] [0, 1, 0] 1 unsigned_distance_predicate
     \<lparr>Grid_size = [6], Grid_strides = [],
       Grid_cells = [numeric_limits_max, numeric_limits_max, numeric_limits_max,
         numeric_limits_max, numeric_limits_max, numeric_limits_max]\<rparr> =
     (None, \<lparr>Grid_size = [6], Grid_strides = [],
       Grid_cells = [0, numeric_limits_max, 1, numeric_limits_max, numeric_limits_max, 0]\<rparr>) \<and>
   InitialUnsignedNarrowBand [[5], [2], [0]]
     \<lparr>Grid_size = [6], Grid_strides = [],
       Grid_cells = [0, numeric_limits_max, 1, numeric_limits_max, numeric_limits_max, 0]\<rparr>
     (Solve (HighAccuracyUniformSpeedEikonalSolver [1] 1)) =
     Inr [(1, [4]), (1, [1]), (2, [3])] \<and>
   mset [(1 :: real, [4 :: int]), (1, [1]), (2, [3])] = mset [(1, [1]), (2, [3]), (1, [4])] \<and>
   UnsignedDistance 10 [6] [[0], [2], [5]] [0, 1, 0]
     (Solve (HighAccuracyUniformSpeedEikonalSolver [1] 1)) = Some (Inr [0, 1, 1, 5 / 3, 1, 0]) \<and>
   UnsignedDistance 10 [6] [[5], [2], [0]] [0, 1, 0]
     (Solve (HighAccuracyUniformSpeedEikonalSolver [1] 1)) = Some (Inr [0, 1, 1, 2, 1, 0]) \<and>
   length [0 :: real, 1, 1, 2, 1, 0] = length [0 :: real, 1, 1, 5 / 3, 1, 0] \<and>
   [0 :: real, 1, 1, 5 / 3, 1, 0] ! GridLinearIndex [0] (GridStrides [6]) = 0 \<and>
   [0 :: real, 1, 1, 2, 1, 0] ! GridLinearIndex [0] (GridStrides [6]) = 0 \<and>
   [0 :: real, 1, 1, 5 / 3, 1, 0] ! GridLinearIndex [2] (GridStrides [6]) = 1 \<and>
   [0 :: real, 1, 1, 2, 1, 0] ! GridLinearIndex [2] (GridStrides [6]) = 1 \<and>
   [0 :: real, 1, 1, 5 / 3, 1, 0] ! GridLinearIndex [5] (GridStrides [6]) = 0 \<and>
   [0 :: real, 1, 1, 2, 1, 0] ! GridLinearIndex [5] (GridStrides [6]) = 0"
  using UnsignedDistance_reordered_seeds
    [where ps = "[2, 1, 0]" and indices = "[[0], [2], [5]]" and distances = "[0, 1, 0]"
      and grid_size = "[6]"
      and ?g0.0 = "\<lparr>Grid_size = [6], Grid_strides = [],
       Grid_cells = [numeric_limits_max, numeric_limits_max, numeric_limits_max,
         numeric_limits_max, numeric_limits_max, numeric_limits_max]\<rparr>"
      and g = "\<lparr>Grid_size = [6], Grid_strides = [],
       Grid_cells = [0, numeric_limits_max, 1, numeric_limits_max, numeric_limits_max, 0]\<rparr>"
      and solver = "Solve (HighAccuracyUniformSpeedEikonalSolver [1] 1)"
      and band = "[(1, [1]), (2, [3]), (1, [4])]" and n = 10 and n' = 10
      and buf = "[0, 1, 1, 5 / 3, 1, 0]" and buf' = "[0, 1, 1, 2, 1, 0]"]
  by (simp add: eval_grid eval_solver eval_march eval_unsigned reorder_def SIZE_MOD_def
      InitialUnsignedNarrowBand_loop.simps)

end
